theory Spec2Isabelle
  imports Complex_Main "HOL-Library.Multiset" "HOL-Library.AList" "HOL-Library.Log_Nat"
begin

section \<open>Python values used by the query pipeline\<close>

text \<open>
  Conventions of the embedding.
  \<^item> A Python \<open>str\<close> is the list of its Unicode code points, a \<open>pystr\<close>; \<open>str ''abc''\<close>
    is the string of an ASCII literal of the source.
  \<^item> A Python \<open>float\<close> is a finite double, given by its exact value, a \<^typ>\<open>rat\<close>; a
    rational that is not the value of a double stands for no float, and infinities and
    NaN are no values of the model. An arithmetic operation computes the exact result
    and rounds it to a double: the rounding is the function \<open>fl\<close> of the record
    \<open>library\<close> below. Comparisons of floats are comparisons of their values.
  \<^item> What the interpreter and its libraries decide is not fixed by the embedding: the
    whitespace class of \<open>str.strip\<close> and \<open>str.split\<close>, the class of the pattern \<open>\d\<close>,
    the case mapping \<open>str.lower\<close>, the rounding \<open>fl\<close>, the MD5 digest and the ISO
    rendering of a date are the fields of \<open>library\<close>, and every definition takes
    them from there.
  \<^item> A \<open>datetime\<close> is an \<^typ>\<open>int\<close> counting microseconds, a \<open>timedelta\<close> likewise.
  \<^item> A raised exception is the \<open>Inl\<close> branch of a sum.
\<close>

datatype error = ValueError | SearchError

type_synonym pystr = "nat list"

definition str :: "string \<Rightarrow> pystr" where
  "str s = map of_char s"

record library =
  isspace :: "nat \<Rightarrow> bool"
  isdecimal :: "nat \<Rightarrow> bool"
  lower :: "pystr \<Rightarrow> pystr"
  fl :: "rat \<Rightarrow> rat"
  md5_hexdigest :: "pystr \<Rightarrow> pystr"
  isoformat :: "int \<Rightarrow> pystr"

subsection \<open>\<open>str\<close> methods\<close>

definition strip :: "library \<Rightarrow> pystr \<Rightarrow> pystr" where
  "strip lib s = rev (dropWhile (isspace lib) (rev (dropWhile (isspace lib) s)))"

text \<open>
  \<open>s.split()\<close> without a separator: the words between runs of whitespace, never
  an empty word. The second argument is the word read so far, reversed.
\<close>

fun split_from :: "library \<Rightarrow> pystr \<Rightarrow> pystr \<Rightarrow> pystr list" where
  "split_from lib w [] = (if w = [] then [] else [rev w])"
| "split_from lib w (c # cs) =
     (if isspace lib c
      then (if w = [] then split_from lib [] cs else rev w # split_from lib [] cs)
      else split_from lib (c # w) cs)"

definition split :: "library \<Rightarrow> pystr \<Rightarrow> pystr list" where
  "split lib s = split_from lib [] s"

fun startswith :: "pystr \<Rightarrow> pystr \<Rightarrow> bool" where
  "startswith s [] = True"
| "startswith [] (k # ks) = False"
| "startswith (c # cs) (k # ks) = (c = k \<and> startswith cs ks)"

text \<open>\<open>k in text\<close> on two strings: \<open>k\<close> occurs in \<open>text\<close> as a substring.\<close>

fun contains :: "pystr \<Rightarrow> pystr \<Rightarrow> bool" where
  "contains [] k = (k = [])"
| "contains (c # cs) k = (startswith (c # cs) k \<or> contains cs k)"

text \<open>\<open>xs[:k]\<close>: a negative bound counts from the end of the list.\<close>

definition slice_to :: "int \<Rightarrow> 'a list \<Rightarrow> 'a list" where
  "slice_to k xs = (if 0 \<le> k then take (nat k) xs else take (length xs - nat (- k)) xs)"

subsection \<open>Numbers\<close>

text \<open>
  A decimal literal of the source is the double nearest to it (the literals \<open>0.0\<close> and
  \<open>1.0\<close>, and an integer operand such as \<open>1000\<close>, are the numbers themselves); the
  sum, difference, product and quotient of two floats, and the quotient \<open>a / b\<close> of two
  integers, are the exact results rounded once.
\<close>

definition lit :: "library \<Rightarrow> rat \<Rightarrow> rat" where
  "lit lib c = fl lib c"

definition fadd :: "library \<Rightarrow> rat \<Rightarrow> rat \<Rightarrow> rat" where
  "fadd lib a b = fl lib (a + b)"

definition fsub :: "library \<Rightarrow> rat \<Rightarrow> rat \<Rightarrow> rat" where
  "fsub lib a b = fl lib (a - b)"

definition fmul :: "library \<Rightarrow> rat \<Rightarrow> rat \<Rightarrow> rat" where
  "fmul lib a b = fl lib (a * b)"

definition fdiv :: "library \<Rightarrow> rat \<Rightarrow> rat \<Rightarrow> rat" where
  "fdiv lib a b = fl lib (a / b)"

definition truediv :: "library \<Rightarrow> int \<Rightarrow> int \<Rightarrow> rat" where
  "truediv lib a b = fl lib (of_int a / of_int b)"

text \<open>\<open>int(x)\<close> on a float truncates towards zero.\<close>

definition int_of_float :: "rat \<Rightarrow> int" where
  "int_of_float x = (if 0 \<le> x then \<lfloor>x\<rfloor> else \<lceil>x\<rceil>)"

text \<open>
  \<open>round(x, n)\<close> on a float: the value of \<open>x\<close> is rounded to the nearest multiple of
  \<open>10^-n\<close>, a tie to the even one, and the double nearest to that decimal is returned.
\<close>

definition round_half_even :: "rat \<Rightarrow> int" where
  "round_half_even x =
     (let f = \<lfloor>x\<rfloor>; r = x - of_int f
      in if r < 1 / 2 then f else if 1 / 2 < r then f + 1 else if even f then f else f + 1)"

definition round_to :: "rat \<Rightarrow> nat \<Rightarrow> rat" where
  "round_to x n = of_int (round_half_even (x * 10 ^ n)) / 10 ^ n"

definition py_round :: "library \<Rightarrow> rat \<Rightarrow> nat \<Rightarrow> rat" where
  "py_round lib x n = fl lib (round_to x n)"

subsection \<open>Documents\<close>

text \<open>
  A retrieved chunk (\<open>langchain_core.documents.Document\<close>): its text and the two
  metadata entries the pipeline reads. \<open>meta_page\<close> is \<open>metadata.get("page")\<close>,
  \<open>None\<close> when the key is missing; \<open>meta_has_numbers\<close> is the truth value of
  \<open>metadata.get("has_numbers")\<close>.
\<close>

record document =
  page_content :: pystr
  meta_page :: "int option"
  meta_has_numbers :: bool

section \<open>Reranker (\<open>src/reranker.py\<close>)\<close>

definition sim_weight :: "library \<Rightarrow> rat" where "sim_weight lib = lit lib (6 / 10)"
definition keyword_weight :: "library \<Rightarrow> rat" where "keyword_weight lib = lit lib (2 / 10)"
definition length_weight :: "library \<Rightarrow> rat" where "length_weight lib = lit lib (1 / 10)"
definition financial_weight :: "library \<Rightarrow> rat" where "financial_weight lib = lit lib (1 / 10)"

text \<open>The fourth term is the euro sign, U+20AC.\<close>

definition financial_terms :: "pystr list" where
  "financial_terms =
     [str ''revenue'', str ''net sales'', str ''sales'', str ''eur'', [0x20AC],
      str ''million'', str ''billion'']"

definition keyword_score :: "library \<Rightarrow> pystr set \<Rightarrow> document \<Rightarrow> rat" where
  "keyword_score lib query_words doc =
     (let doc_words = set (split lib (lower lib (page_content doc)))
      in if query_words \<noteq> {}
         then truediv lib (int (card (query_words \<inter> doc_words))) (int (card query_words))
         else 0)"

definition length_score :: "library \<Rightarrow> document \<Rightarrow> rat" where
  "length_score lib doc =
     (let wc = int (length (split lib (page_content doc)))
      in fdiv lib 1 (fadd lib 1 (truediv lib \<bar>wc - 200\<bar> 200)))"

definition financial_boost :: "library \<Rightarrow> document \<Rightarrow> rat" where
  "financial_boost lib doc =
     (let text = lower lib (page_content doc);
          boost = 0;
          boost = (if list_ex (\<lambda>k. contains text k) financial_terms
                   then fadd lib boost (lit lib (15 / 100)) else boost);
          boost = (if meta_has_numbers doc
                   then fadd lib boost (lit lib (10 / 100)) else boost)
      in boost)"

definition final_score :: "library \<Rightarrow> pystr set \<Rightarrow> document \<Rightarrow> rat \<Rightarrow> rat" where
  "final_score lib query_words doc sim_score =
     fadd lib
       (fadd lib
          (fadd lib (fmul lib (sim_weight lib) sim_score)
                    (fmul lib (keyword_weight lib) (keyword_score lib query_words doc)))
          (fmul lib (length_weight lib) (length_score lib doc)))
       (fmul lib (financial_weight lib) (financial_boost lib doc))"

text \<open>
  \<open>list.sort(key, reverse=True)\<close>: CPython reverses the list, sorts it stably in
  ascending key order and reverses it again.
\<close>

definition sort_reverse :: "('a \<Rightarrow> rat) \<Rightarrow> 'a list \<Rightarrow> 'a list" where
  "sort_reverse f xs = rev (sort_key f (rev xs))"

definition rerank ::
  "library \<Rightarrow> pystr \<Rightarrow> (document \<times> rat) list \<Rightarrow> int \<Rightarrow> (document \<times> rat) list" where
  "rerank lib query docs_scores top_k =
     (let query_lower = lower lib query;
          query_words = set (split lib query_lower);
          rescored = map (\<lambda>(doc, sim_score). (doc, final_score lib query_words doc sim_score))
                         docs_scores
      in slice_to top_k (sort_reverse snd rescored))"

text \<open>
  The same scoring in the words of the specification: the four signals and their
  weighted sum, in float arithmetic, as functions of the query, the passage text and
  the flag.
\<close>

definition keywordOverlap :: "library \<Rightarrow> pystr \<Rightarrow> pystr \<Rightarrow> rat" where
  "keywordOverlap lib query text =
     (let queryWords = set (split lib (lower lib query));
          passageWords = set (split lib (lower lib text))
      in if queryWords = {} then 0
         else truediv lib (int (card (queryWords \<inter> passageWords))) (int (card queryWords)))"

definition lengthFit :: "library \<Rightarrow> pystr \<Rightarrow> rat" where
  "lengthFit lib text =
     (let wordCount = int (length (split lib text))
      in fdiv lib 1 (fadd lib 1 (truediv lib \<bar>wordCount - 200\<bar> 200)))"

definition financialBoost :: "library \<Rightarrow> pystr \<Rightarrow> bool \<Rightarrow> rat" where
  "financialBoost lib text flagged =
     (let base = (if \<exists>t \<in> set financial_terms. contains (lower lib text) t
                  then fadd lib 0 (lit lib (15 / 100)) else 0)
      in if flagged then fadd lib base (lit lib (10 / 100)) else base)"

definition finalScore :: "library \<Rightarrow> pystr \<Rightarrow> document \<Rightarrow> rat \<Rightarrow> rat" where
  "finalScore lib query doc similarity =
     fadd lib
       (fadd lib
          (fadd lib (fmul lib (lit lib (6 / 10)) similarity)
                    (fmul lib (lit lib (2 / 10)) (keywordOverlap lib query (page_content doc))))
          (fmul lib (lit lib (1 / 10)) (lengthFit lib (page_content doc))))
       (fmul lib (lit lib (1 / 10))
          (financialBoost lib (page_content doc) (meta_has_numbers doc)))"

section \<open>Confidence, evidence and sources (\<open>src/rag_pipeline.py\<close>)\<close>

datatype level = LOW | MEDIUM | HIGH

datatype reason =
    NO_SOURCES
  | NO_SCORES
  | LOW_TOP_SIMILARITY
  | LOW_AVG_SIMILARITY
  | SINGLE_PAGE_EVIDENCE
  | LOW_NUMERIC_EVIDENCE
  | ANSWER_HAS_NUMBERS_WITHOUT_SUPPORT

record confidence =
  level :: level
  score :: rat
  reasons :: "reason list"

text \<open>
  \<open>statistics.mean\<close> adds the values exactly, divides exactly and rounds the quotient
  once.
\<close>

definition mean :: "library \<Rightarrow> rat list \<Rightarrow> rat" where
  "mean lib xs = fl lib (sum_list xs / of_nat (length xs))"

definition level_of :: "library \<Rightarrow> rat \<Rightarrow> level" where
  "level_of lib sc =
     (if lit lib (75 / 100) \<le> sc then HIGH else if lit lib (50 / 100) \<le> sc then MEDIUM else LOW)"

text \<open>
  \<open>_compute_confidence\<close>. A score of the list may be \<open>None\<close>: the function filters
  those out itself. The chain of \<open>let\<close>s is the sequence of updates of the local
  variables \<open>score\<close> and \<open>reasons\<close>.
\<close>

definition compute_confidence ::
  "library \<Rightarrow> (document \<times> rat option) list \<Rightarrow> pystr \<Rightarrow> confidence" where
  "compute_confidence lib docs_scores ans =
     (if docs_scores = [] then \<lparr>level = LOW, score = 0, reasons = [NO_SOURCES]\<rparr>
      else
        let scores = map the (filter (\<lambda>s. s \<noteq> None) (map snd docs_scores))
        in if scores = [] then \<lparr>level = LOW, score = 0, reasons = [NO_SCORES]\<rparr>
           else
             let top = Max (set scores);
                 avg = mean lib scores;
                 has_numbers_answer = list_ex (isdecimal lib) ans;
                 numeric_chunks = length (filter (\<lambda>(d, _). meta_has_numbers d) docs_scores);
                 unique_pages = card (set (map (\<lambda>(d, _). meta_page d) docs_scores));
                 (sc, rs) = (0, []);
                 (sc, rs) = (if lit lib (55 / 100) \<le> top
                             then (fadd lib sc (lit lib (40 / 100)), rs)
                             else (sc, rs @ [LOW_TOP_SIMILARITY]));
                 (sc, rs) = (if lit lib (45 / 100) \<le> avg
                             then (fadd lib sc (lit lib (20 / 100)), rs)
                             else (sc, rs @ [LOW_AVG_SIMILARITY]));
                 (sc, rs) = (if 2 \<le> unique_pages
                             then (fadd lib sc (lit lib (15 / 100)), rs)
                             else (sc, rs @ [SINGLE_PAGE_EVIDENCE]));
                 (sc, rs) = (if 2 \<le> numeric_chunks
                             then (fadd lib sc (lit lib (15 / 100)), rs)
                             else (sc, rs @ [LOW_NUMERIC_EVIDENCE]));
                 (sc, rs) = (if has_numbers_answer \<and> numeric_chunks = 0
                             then (fsub lib sc (lit lib (20 / 100)),
                                   rs @ [ANSWER_HAS_NUMBERS_WITHOUT_SUPPORT])
                             else (sc, rs));
                 sc = max 0 (min 1 sc)
             in \<lparr>level = level_of lib sc, score = py_round lib sc 3, reasons = rs\<rparr>)"

text \<open>
  The scorer in the words of the specification: the scores that are present, and one
  step of the accumulation, which adds a fixed amount when its check holds.
\<close>

definition present_scores :: "(document \<times> rat option) list \<Rightarrow> rat list" where
  "present_scores docs_scores = [s. (d, Some s) \<leftarrow> docs_scores]"

definition gain :: "library \<Rightarrow> bool \<Rightarrow> rat \<Rightarrow> rat \<Rightarrow> rat" where
  "gain lib ok amount sc = (if ok then fadd lib sc (lit lib amount) else sc)"

definition penalty :: "library \<Rightarrow> bool \<Rightarrow> rat \<Rightarrow> rat \<Rightarrow> rat" where
  "penalty lib applies amount sc = (if applies then fsub lib sc (lit lib amount) else sc)"

text \<open>The page shown to the caller: the page number, or the string \<open>"?"\<close>.\<close>

datatype page_label = PageNo int | PageStr pystr

definition page_of :: "document \<Rightarrow> page_label" where
  "page_of doc = (case meta_page doc of None \<Rightarrow> PageStr (str ''?'') | Some p \<Rightarrow> PageNo p)"

record evidence_item =
  ev_page :: page_label
  ev_score :: rat
  snippet :: pystr

record source_item =
  src_page :: page_label
  src_score :: rat
  preview :: pystr

definition build_evidence :: "library \<Rightarrow> (document \<times> rat) list \<Rightarrow> evidence_item list" where
  "build_evidence lib docs_scores =
     map (\<lambda>(doc, sc). \<lparr>ev_page = page_of doc, ev_score = py_round lib sc 3,
                        snippet = strip lib (take 240 (page_content doc))\<rparr>)
         (take 3 docs_scores)"

definition format_sources :: "library \<Rightarrow> (document \<times> rat) list \<Rightarrow> source_item list" where
  "format_sources lib docs_scores =
     map (\<lambda>(doc, sc). \<lparr>src_page = page_of doc, src_score = py_round lib sc 3,
                        preview = take 150 (page_content doc) @ str ''...''\<rparr>)
         docs_scores"

subsection \<open>The context handed to the generator\<close>

definition digit_char :: "nat \<Rightarrow> char" where
  "digit_char n = ''0123456789'' ! (n mod 10)"

function str_nat :: "nat \<Rightarrow> string" where
  "str_nat n = (if n < 10 then [digit_char n] else str_nat (n div 10) @ [digit_char n])"
  by pat_completeness auto
termination
  by (relation "measure id") auto

definition str_int :: "int \<Rightarrow> string" where
  "str_int i = (if i < 0 then CHR ''-'' # str_nat (nat (- i)) else str_nat (nat i))"

text \<open>
  The format \<open>:.2f\<close> of a float: sign, integer part, a dot and two decimals, the value
  rounded to the nearest hundredth, a tie to the even one.
\<close>

definition format_2f :: "rat \<Rightarrow> string" where
  "format_2f x =
     (let n = nat (round_half_even (\<bar>x\<bar> * 100))
      in (if x < 0 then ''-'' else []) @ str_nat (n div 100) @ ''.''
         @ [digit_char (n div 10), digit_char n])"

definition str_page :: "page_label \<Rightarrow> pystr" where
  "str_page p = (case p of PageNo i \<Rightarrow> str (str_int i) | PageStr t \<Rightarrow> t)"

fun join :: "pystr \<Rightarrow> pystr list \<Rightarrow> pystr" where
  "join sep [] = []"
| "join sep [p] = p"
| "join sep (p # q # ps) = p @ sep @ join sep (q # ps)"

definition build_context :: "(document \<times> rat) list \<Rightarrow> pystr" where
  "build_context docs_scores =
     (let parts = map (\<lambda>(doc, sc).
                    str ''[Page '' @ str_page (page_of doc) @ str '' | score ''
                    @ str (format_2f sc) @ str '']'' @ [0x0A] @ page_content doc) docs_scores
      in join ([0x0A, 0x0A] @ str ''---'' @ [0x0A, 0x0A]) parts)"

section \<open>The pipeline state\<close>

text \<open>
  \<open>Config\<close> is a class whose attributes are read at each use; the functions below take
  the configuration as an argument, and \<open>Config\<close> holds the values of \<open>src/config.py\<close>.
\<close>

record config =
  enable_cache :: bool
  cache_ttl :: int
  cache_max_size :: int
  top_k_retrieval :: int
  top_k_final :: int

definition Config :: config where
  "Config = \<lparr>enable_cache = True, cache_ttl = 3600, cache_max_size = 500,
             top_k_retrieval = 10, top_k_final = 5\<rparr>"

record result =
  answer :: pystr
  sources :: "source_item list"
  evidence :: "evidence_item list"
  confidence :: confidence
  latency_ms :: int
  from_cache :: bool
  timestamp :: pystr

record metrics =
  total_queries :: int
  cache_hits :: int
  total_latency_ms_e2e :: int
  total_latency_ms_uncached :: int
  uncached_queries :: int

text \<open>
  The result dictionaries are mutable objects: the cache keeps a reference to one, and
  \<open>query\<close> assigns to the keys of another. The state therefore has a store of
  dictionaries, \<open>heap\<close>, addressed by position; \<open>dict(d)\<close> and \<open>d.copy()\<close> allocate a
  new cell. The cache is a \<open>dict\<close> from key to (address, time of insertion), kept as an
  association list in insertion order, which is the order Python iterates it in.
  The lists and the confidence record inside a result are shared by a dictionary and
  its shallow copies; the pipeline never assigns into them, and they are plain values
  here.
\<close>

record pipeline =
  heap :: "result list"
  cache :: "(pystr \<times> nat \<times> int) list"
  metrics :: metrics

definition init :: pipeline where
  "init = \<lparr>heap = [], cache = [],
            metrics = \<lparr>total_queries = 0, cache_hits = 0, total_latency_ms_e2e = 0,
                        total_latency_ms_uncached = 0, uncached_queries = 0\<rparr>\<rparr>"

definition alloc :: "result \<Rightarrow> result list \<Rightarrow> nat \<times> result list" where
  "alloc d h = (length h, h @ [d])"

text \<open>\<open>d[key] = v\<close> on the dictionary at address \<open>a\<close>.\<close>

definition assign :: "nat \<Rightarrow> (result \<Rightarrow> result) \<Rightarrow> result list \<Rightarrow> result list" where
  "assign a f h = h[a := f (h ! a)]"

text \<open>
  What one call reads from outside the pipeline: the clock readings, as floats
  (\<open>time.time()\<close>) and as dates (\<open>datetime.now()\<close>), and the answers of the retriever and
  of the generator.
\<close>

record world =
  time_start :: rat
  now_get :: int
  time_end :: rat
  now_stamp :: int
  now_set :: int
  search :: "pystr \<Rightarrow> int \<Rightarrow> error + (document \<times> rat) list"
  generate :: "pystr \<Rightarrow> pystr \<Rightarrow> pystr"

section \<open>Cache\<close>

definition timedelta_seconds :: "int \<Rightarrow> int" where
  "timedelta_seconds n = n * 1000000"

definition get_cache_key :: "library \<Rightarrow> pystr \<Rightarrow> pystr" where
  "get_cache_key lib question = md5_hexdigest lib (strip lib (lower lib question))"

definition get_cache ::
  "library \<Rightarrow> config \<Rightarrow> int \<Rightarrow> pystr \<Rightarrow> pipeline \<Rightarrow> nat option \<times> pipeline" where
  "get_cache lib cfg now question s =
     (let key = get_cache_key lib question
      in case map_of (cache s) key of
           None \<Rightarrow> (None, s)
         | Some (cached, ts) \<Rightarrow>
             if timedelta_seconds (cache_ttl cfg) < now - ts
             then (None, s\<lparr>cache := AList.delete key (cache s)\<rparr>)
             else (Some cached, s))"

text \<open>
  \<open>min(self.cache, key=...)\<close>: the first entry, in iteration order, whose time of
  insertion is the least; \<open>ValueError\<close> on an empty dictionary.
\<close>

fun min_from :: "('a \<Rightarrow> int) \<Rightarrow> 'a \<Rightarrow> 'a list \<Rightarrow> 'a" where
  "min_from f best [] = best"
| "min_from f best (x # xs) = min_from f (if f x < f best then x else best) xs"

definition oldest_key :: "(pystr \<times> nat \<times> int) list \<Rightarrow> error + pystr" where
  "oldest_key c =
     (case c of [] \<Rightarrow> Inl ValueError
      | e # es \<Rightarrow> Inr (fst (min_from (\<lambda>e. snd (snd e)) e es)))"

definition set_cache ::
  "library \<Rightarrow> config \<Rightarrow> int \<Rightarrow> pystr \<Rightarrow> nat \<Rightarrow> pipeline \<Rightarrow> error + pipeline" where
  "set_cache lib cfg now question res s =
     (let key = get_cache_key lib question;
          evicted = (if cache_max_size cfg \<le> int (length (cache s))
                     then (case oldest_key (cache s) of
                             Inl e \<Rightarrow> Inl e
                           | Inr oldest \<Rightarrow> Inr (AList.delete oldest (cache s)))
                     else Inr (cache s))
      in case evicted of
           Inl e \<Rightarrow> Inl e
         | Inr c \<Rightarrow>
             (let (cp, h) = alloc (heap s ! res) (heap s)
              in Inr (s\<lparr>heap := h, cache := AList.update key (cp, now) c\<rparr>)))"

section \<open>Query\<close>

definition finalize ::
  "library \<Rightarrow> config \<Rightarrow> world \<Rightarrow> pystr \<Rightarrow> pystr \<Rightarrow> (document \<times> rat) list \<Rightarrow> rat
     \<Rightarrow> bool \<Rightarrow> bool \<Rightarrow> pipeline \<Rightarrow> (error + nat) \<times> pipeline" where
  "finalize lib cfg w question ans docs_scores start frm_cache allow_cache_write s =
     (let latency = int_of_float (fmul lib (fsub lib (time_end w) start) 1000);
          m = metrics s;
          m = m\<lparr>total_latency_ms_e2e := total_latency_ms_e2e m + latency\<rparr>;
          m = (if \<not> frm_cache
               then m\<lparr>uncached_queries := uncached_queries m + 1,
                      total_latency_ms_uncached := total_latency_ms_uncached m + latency\<rparr>
               else m);
          conf = compute_confidence lib (map (\<lambda>(d, sc). (d, Some sc)) docs_scores) ans;
          ev = build_evidence lib docs_scores;
          (res, h) = alloc \<lparr>answer = ans, sources = format_sources lib docs_scores,
                            evidence = ev, confidence = conf, latency_ms = latency,
                            from_cache = frm_cache,
                            timestamp = isoformat lib (now_stamp w)\<rparr> (heap s);
          s = s\<lparr>heap := h, metrics := m\<rparr>
      in if allow_cache_write \<and> \<not> frm_cache
         then (case set_cache lib cfg (now_set w) question res s of
                 Inl e \<Rightarrow> (Inl e, s)
               | Inr s' \<Rightarrow> (Inr res, s'))
         else (Inr res, s))"

definition query ::
  "library \<Rightarrow> config \<Rightarrow> world \<Rightarrow> pystr option \<Rightarrow> int option \<Rightarrow> bool \<Rightarrow> bool
     \<Rightarrow> pipeline \<Rightarrow> (error + nat) \<times> pipeline" where
  "query lib cfg w question top_k use_cache use_rerank s =
     (let start = time_start w;
          s = s\<lparr>metrics := (metrics s)\<lparr>total_queries := total_queries (metrics s) + 1\<rparr>\<rparr>;
          question_clean = strip lib (case question of None \<Rightarrow> [] | Some q \<Rightarrow> q)
      in if question_clean = []
         then finalize lib cfg w [] (str ''Empty question.'') [] start False False s
         else
           let (cached, s) = (if use_cache \<and> enable_cache cfg
                              then get_cache lib cfg (now_get w) question_clean s
                              else (None, s))
           in case cached of
                Some c \<Rightarrow>
                  (let m = metrics s;
                       m = m\<lparr>cache_hits := cache_hits m + 1\<rparr>;
                       latency = int_of_float (fmul lib (fsub lib (time_end w) start) 1000);
                       m = m\<lparr>total_latency_ms_e2e := total_latency_ms_e2e m + latency\<rparr>;
                       (out, h) = alloc (heap s ! c) (heap s);
                       h = assign out (\<lambda>d. d\<lparr>from_cache := True\<rparr>) h;
                       h = assign out (\<lambda>d. d\<lparr>latency_ms := latency\<rparr>) h;
                       h = assign out (\<lambda>d. d\<lparr>timestamp := isoformat lib (now_stamp w)\<rparr>) h
                   in (Inr out, s\<lparr>heap := h, metrics := m\<rparr>))
              | None \<Rightarrow>
                  (let k = (case top_k of Some t \<Rightarrow> t | None \<Rightarrow> top_k_retrieval cfg)
                   in case search w question_clean k of
                        Inl e \<Rightarrow> (Inl e, s)
                      | Inr docs_scores \<Rightarrow>
                          if docs_scores = []
                          then finalize lib cfg w question_clean
                                 (str ''No relevant information found in the document.'') []
                                 start False (use_cache \<and> enable_cache cfg) s
                          else
                            let docs_scores =
                                  (if use_rerank
                                   then rerank lib question_clean docs_scores (top_k_final cfg)
                                   else slice_to (top_k_final cfg) docs_scores);
                                context = build_context docs_scores;
                                ans = generate w context question_clean
                            in finalize lib cfg w question_clean ans docs_scores
                                 start False (use_cache \<and> enable_cache cfg) s))"

section \<open>Metrics\<close>

record metrics_report =
  rep_total_queries :: int
  rep_cache_hits :: int
  cache_hit_rate :: rat
  avg_latency_e2e_ms :: "rat option"
  avg_latency_uncached_ms :: "rat option"
  cache_size :: nat

text \<open>\<open>get_metrics\<close>, without the entry \<open>db_stats\<close> that the vector store fills in.\<close>

definition get_metrics :: "library \<Rightarrow> pipeline \<Rightarrow> metrics_report" where
  "get_metrics lib s =
     (let tq = total_queries (metrics s);
          uq = uncached_queries (metrics s);
          avg_e2e = (if tq \<noteq> 0 then Some (truediv lib (total_latency_ms_e2e (metrics s)) tq)
                     else None);
          avg_uncached = (if uq \<noteq> 0
                          then Some (truediv lib (total_latency_ms_uncached (metrics s)) uq)
                          else None);
          cache_rate = (if tq \<noteq> 0 then truediv lib (cache_hits (metrics s)) tq else 0)
      in \<lparr>rep_total_queries = tq,
          rep_cache_hits = cache_hits (metrics s),
          cache_hit_rate = py_round lib cache_rate 3,
          avg_latency_e2e_ms =
            (case avg_e2e of None \<Rightarrow> None | Some a \<Rightarrow> Some (py_round lib a 2)),
          avg_latency_uncached_ms =
            (case avg_uncached of None \<Rightarrow> None | Some a \<Rightarrow> Some (py_round lib a 2)),
          cache_size = length (cache s)\<rparr>)"

section \<open>Notions used in the statements\<close>

text \<open>
  The latency a call measures, the dictionary that \<open>_finalize\<close> builds, and the three
  ways a call updates the counters.
\<close>

definition latency :: "library \<Rightarrow> world \<Rightarrow> int" where
  "latency lib w = int_of_float (fmul lib (fsub lib (time_end w) (time_start w)) 1000)"

definition built_result ::
  "library \<Rightarrow> world \<Rightarrow> pystr \<Rightarrow> (document \<times> rat) list \<Rightarrow> result" where
  "built_result lib w ans docs_scores =
     \<lparr>answer = ans, sources = format_sources lib docs_scores, evidence = build_evidence lib docs_scores,
      confidence = compute_confidence lib (map (\<lambda>(d, sc). (d, Some sc)) docs_scores) ans,
      latency_ms = latency lib w, from_cache = False, timestamp = isoformat lib (now_stamp w)\<rparr>"

definition count_query :: "metrics \<Rightarrow> metrics" where
  "count_query m = m\<lparr>total_queries := total_queries m + 1\<rparr>"

definition count_uncached :: "int \<Rightarrow> metrics \<Rightarrow> metrics" where
  "count_uncached l m =
     m\<lparr>total_latency_ms_e2e := total_latency_ms_e2e m + l,
       uncached_queries := uncached_queries m + 1,
       total_latency_ms_uncached := total_latency_ms_uncached m + l\<rparr>"

definition count_hit :: "int \<Rightarrow> metrics \<Rightarrow> metrics" where
  "count_hit l m =
     m\<lparr>cache_hits := cache_hits m + 1,
       total_latency_ms_e2e := total_latency_ms_e2e m + l\<rparr>"

text \<open>The answer that the lines after the cache read compute, and its passages.\<close>

definition final_docs ::
  "library \<Rightarrow> config \<Rightarrow> pystr \<Rightarrow> bool \<Rightarrow> (document \<times> rat) list \<Rightarrow> (document \<times> rat) list" where
  "final_docs lib cfg question_clean use_rerank docs_scores =
     (if docs_scores = [] then []
      else if use_rerank then rerank lib question_clean docs_scores (top_k_final cfg)
      else slice_to (top_k_final cfg) docs_scores)"

definition final_answer ::
  "library \<Rightarrow> config \<Rightarrow> world \<Rightarrow> pystr \<Rightarrow> bool \<Rightarrow> (document \<times> rat) list \<Rightarrow> pystr" where
  "final_answer lib cfg w question_clean use_rerank docs_scores =
     (if docs_scores = [] then str ''No relevant information found in the document.''
      else generate w (build_context (final_docs lib cfg question_clean use_rerank docs_scores))
             question_clean)"

section \<open>Sequences of operations\<close>

text \<open>
  A caller of the cache alone: a read, or a write of a freshly built result. A write
  that raises leaves the cache as it was.
\<close>

datatype cache_op = Get int pystr | Set int pystr result

fun apply_op :: "library \<Rightarrow> config \<Rightarrow> cache_op \<Rightarrow> pipeline \<Rightarrow> pipeline" where
  "apply_op lib cfg (Get now question) s = snd (get_cache lib cfg now question s)"
| "apply_op lib cfg (Set now question d) s =
     (let (r, h) = alloc d (heap s);
          s = s\<lparr>heap := h\<rparr>
      in case set_cache lib cfg now question r s of Inl e \<Rightarrow> s | Inr s' \<Rightarrow> s')"

definition apply_ops :: "library \<Rightarrow> config \<Rightarrow> cache_op list \<Rightarrow> pipeline \<Rightarrow> pipeline" where
  "apply_ops lib cfg ops s = fold (apply_op lib cfg) ops s"

text \<open>
  A sequence of calls of \<open>query\<close>, each with what it reads from outside. The run
  stops at the first call that raises; otherwise it gives the results, in order, as they
  were when they were returned.
\<close>

record call =
  call_world :: world
  call_question :: "pystr option"
  call_top_k :: "int option"
  call_use_cache :: bool
  call_use_rerank :: bool

fun run :: "library \<Rightarrow> config \<Rightarrow> call list \<Rightarrow> pipeline \<Rightarrow> (error + result list) \<times> pipeline" where
  "run lib cfg [] s = (Inr [], s)"
| "run lib cfg (c # cs) s =
     (case query lib cfg (call_world c) (call_question c) (call_top_k c) (call_use_cache c)
             (call_use_rerank c) s of
        (Inl e, s1) \<Rightarrow> (Inl e, s1)
      | (Inr r, s1) \<Rightarrow>
          (case run lib cfg cs s1 of
             (Inl e, s2) \<Rightarrow> (Inl e, s2)
           | (Inr ds, s2) \<Rightarrow> (Inr (heap s1 ! r # ds), s2)))"

text \<open>
  The state after a sequence of calls, whether they return or raise: an exception
  leaves the pipeline in the state it had reached.
\<close>

definition after_calls :: "library \<Rightarrow> config \<Rightarrow> call list \<Rightarrow> pipeline \<Rightarrow> pipeline" where
  "after_calls lib cfg calls s =
     fold (\<lambda>c s. snd (query lib cfg (call_world c) (call_question c) (call_top_k c)
                          (call_use_cache c) (call_use_rerank c) s)) calls s"

text \<open>
  The cache refers to dictionaries that exist, under distinct keys: this holds of
  \<open>init\<close> and is kept by every operation.
\<close>

definition wf :: "pipeline \<Rightarrow> bool" where
  "wf s = (distinct (map fst (cache s))
           \<and> list_all (\<lambda>(k, a, ts). a < length (heap s)) (cache s))"

section \<open>Example inputs\<close>

text \<open>The three chunks of the repository's test suite, flagged as holding numbers.\<close>

definition doc_p10 :: document where
  "doc_p10 = \<lparr>page_content = str ''Revenue 2023: 86,153 million euros.'', meta_page = Some 10,
              meta_has_numbers = True\<rparr>"

definition doc_p11 :: document where
  "doc_p11 = \<lparr>page_content = str ''2023 growth was 13% compared to 2022.'', meta_page = Some 11,
              meta_has_numbers = True\<rparr>"

definition doc_p49 :: document where
  "doc_p49 = \<lparr>page_content = str ''LVMH has more than 5,000 stores worldwide.'',
              meta_page = Some 49, meta_has_numbers = True\<rparr>"

definition doc_plain :: document where
  "doc_plain = \<lparr>page_content = str ''LVMH is a luxury group.'', meta_page = None,
                meta_has_numbers = False\<rparr>"

subsection \<open>A library\<close>

text \<open>
  Rounding to binary64, to the nearest double and on a tie to the one with an even
  significand: \<open>binade x\<close> is the exponent \<open>e\<close> with \<open>2^e \<le> |x| < 2^(e+1)\<close>, and the
  doubles near \<open>x\<close> are the multiples of \<open>2^(e-52)\<close>, or of \<open>2^-1074\<close> below the
  normal range. (A result of magnitude \<open>2^1024\<close> or more is no double.)
\<close>

definition two_to :: "int \<Rightarrow> rat" where
  "two_to e = (if 0 \<le> e then 2 ^ nat e else 1 / 2 ^ nat (- e))"

definition binade :: "rat \<Rightarrow> int" where
  "binade x =
     (let (p, q) = quotient_of \<bar>x\<bar>;
          d = bitlen p - bitlen q
      in if two_to d \<le> \<bar>x\<bar> then d else d - 1)"

definition round_double :: "rat \<Rightarrow> rat" where
  "round_double x =
     (if x = 0 then 0
      else let e = max (binade x) (- 1022);
               ulp = two_to (e - 52)
           in of_int (round_half_even (x / ulp)) * ulp)"

text \<open>
  The whitespace characters of CPython 3; the digits and the case mapping of ASCII,
  which is what \<open>\d\<close> and \<open>str.lower\<close> do on the ASCII strings of the examples; binary64
  rounding. The digest is a stand-in, the identity, and the ISO rendering of a date is
  its decimal count of microseconds.
\<close>

definition lib_demo :: library where
  "lib_demo =
     \<lparr>isspace = (\<lambda>c. c \<in> set [0x09, 0x0A, 0x0B, 0x0C, 0x0D, 0x1C, 0x1D, 0x1E, 0x1F, 0x20,
                                  0x85, 0xA0, 0x1680, 0x2000, 0x2001, 0x2002, 0x2003, 0x2004,
                                  0x2005, 0x2006, 0x2007, 0x2008, 0x2009, 0x200A, 0x2028,
                                  0x2029, 0x202F, 0x205F, 0x3000]),
      isdecimal = (\<lambda>c. 0x30 \<le> c \<and> c \<le> 0x39),
      lower = map (\<lambda>c. if 0x41 \<le> c \<and> c \<le> 0x5A then c + 0x20 else c),
      fl = round_double,
      md5_hexdigest = (\<lambda>s. s),
      isoformat = (\<lambda>t. str (str_int t))\<rparr>"

text \<open>
  The retriever and the generator answer as the stubs of the repository's test suite
  do. A call at second \<open>t\<close> takes 125 ms.
\<close>

definition world_demo :: "int \<Rightarrow> world" where
  "world_demo t =
     \<lparr>time_start = of_int t, now_get = t * 1000000 + 1000, time_end = of_int t + 1 / 8,
      now_stamp = t * 1000000 + 125000, now_set = t * 1000000 + 125001,
      search = (\<lambda>q k. Inr [(doc_p10, lit lib_demo (90 / 100)), (doc_p11, lit lib_demo (85 / 100)),
                           (doc_p49, lit lib_demo (80 / 100))]),
      generate = (\<lambda>c q. str ''LVMH revenue in 2023 was 86,153 million euros [Page 10].'')\<rparr>"

definition call_demo :: "int \<Rightarrow> pystr \<Rightarrow> call" where
  "call_demo t q = \<lparr>call_world = world_demo t, call_question = Some q, call_top_k = None,
                    call_use_cache = True, call_use_rerank = True\<rparr>"

text \<open>A pipeline that holds one result dictionary, not yet cached.\<close>

definition result_demo :: result where
  "result_demo =
     \<lparr>answer = str ''LVMH revenue in 2023 was 86,153 million euros [Page 10].'', sources = [],
      evidence = [], confidence = \<lparr>level = LOW, score = 0, reasons = [NO_SOURCES]\<rparr>,
      latency_ms = 125, from_cache = False, timestamp = str ''10125000''\<rparr>"

definition pipeline_demo :: pipeline where
  "pipeline_demo = init\<lparr>heap := [result_demo]\<rparr>"

text \<open>
  The same pipeline once \<open>"q"\<close> has been cached at time \<open>0\<close>; a configuration with
  room for two entries, and a cache that is full under it.
\<close>

definition pipeline_cached :: pipeline where
  "pipeline_cached = pipeline_demo\<lparr>heap := [result_demo, result_demo], cache := [(str ''q'', 1, 0)]\<rparr>"

definition config_small :: config where
  "config_small = Config\<lparr>cache_max_size := 2\<rparr>"

definition pipeline_full :: pipeline where
  "pipeline_full = init\<lparr>heap := [result_demo, result_demo, result_demo],
                        cache := [(str ''a'', 0, 20), (str ''b'', 1, 10)]\<rparr>"

text \<open>
  A retriever that finds nothing, and three calls with it: a question, a blank
  question, and the first question again. The results and the states they lead to,
  from \<open>init\<close>, are written out.
\<close>

definition world_none :: "int \<Rightarrow> world" where
  "world_none t = (world_demo t)\<lparr>search := (\<lambda>q k. Inr [])\<rparr>"

definition call_none :: "int \<Rightarrow> pystr \<Rightarrow> call" where
  "call_none t q = \<lparr>call_world = world_none t, call_question = Some q, call_top_k = None,
                    call_use_cache = True, call_use_rerank = True\<rparr>"

definition calls_demo :: "call list" where
  "calls_demo = [call_none 10 (str ''q''), call_none 20 (str ''  ''), call_none 30 (str ''q'')]"

definition result_none :: result where
  "result_none =
     \<lparr>answer = str ''No relevant information found in the document.'', sources = [], evidence = [],
      confidence = \<lparr>level = LOW, score = 0, reasons = [NO_SOURCES]\<rparr>, latency_ms = 125,
      from_cache = False, timestamp = isoformat lib_demo 10125000\<rparr>"

definition result_blank :: result where
  "result_blank =
     \<lparr>answer = str ''Empty question.'', sources = [], evidence = [],
      confidence = \<lparr>level = LOW, score = 0, reasons = [NO_SOURCES]\<rparr>, latency_ms = 125,
      from_cache = False, timestamp = isoformat lib_demo 20125000\<rparr>"

definition result_hit :: result where
  "result_hit = result_none\<lparr>from_cache := True, latency_ms := 125,
                             timestamp := isoformat lib_demo 30125000\<rparr>"

definition pipeline_1 :: pipeline where
  "pipeline_1 =
     \<lparr>heap = [result_none, result_none], cache = [(str ''q'', 1, 10125001)],
      metrics = \<lparr>total_queries = 1, cache_hits = 0, total_latency_ms_e2e = 125,
                  total_latency_ms_uncached = 125, uncached_queries = 1\<rparr>\<rparr>"

definition pipeline_2 :: pipeline where
  "pipeline_2 =
     \<lparr>heap = [result_none, result_none, result_blank], cache = [(str ''q'', 1, 10125001)],
      metrics = \<lparr>total_queries = 2, cache_hits = 0, total_latency_ms_e2e = 250,
                  total_latency_ms_uncached = 250, uncached_queries = 2\<rparr>\<rparr>"

definition pipeline_3 :: pipeline where
  "pipeline_3 =
     \<lparr>heap = [result_none, result_none, result_blank, result_hit],
      cache = [(str ''q'', 1, 10125001)],
      metrics = \<lparr>total_queries = 3, cache_hits = 1, total_latency_ms_e2e = 375,
                  total_latency_ms_uncached = 250, uncached_queries = 2\<rparr>\<rparr>"

section \<open>The arithmetic of the example library\<close>

lemma fl_demo: "fl lib_demo = round_double"
  by (simp add: lib_demo_def)

section \<open>The reranker's contract\<close>

lemma final_score_refines:
  "final_score lib (set (split lib (lower lib qry))) doc s = finalScore lib qry doc s"
  by (simp add: final_score_def finalScore_def keyword_score_def keywordOverlap_def
      length_score_def lengthFit_def financial_boost_def financialBoost_def Let_def
      sim_weight_def keyword_weight_def length_weight_def financial_weight_def list_ex_iff)

lemma sort_reverse_sorted: "sorted_wrt (\<lambda>a b. f b \<le> f a) (sort_reverse f xs)"
proof -
  have "sorted (map f (sort_key f (rev xs)))" by (rule sorted_sort_key)
  then have "sorted_wrt (\<lambda>a b. f a \<le> f b) (sort_key f (rev xs))"
    by (simp add: sorted_wrt_map)
  then show ?thesis
    by (simp add: sort_reverse_def sorted_wrt_rev)
qed

lemma sort_reverse_mset: "mset (sort_reverse f xs) = mset xs"
  by (simp add: sort_reverse_def)

lemma sort_reverse_stable:
  "filter (\<lambda>y. f y = v) (sort_reverse f xs) = filter (\<lambda>y. f y = v) xs"
proof -
  have "filter (\<lambda>y. f y = v) (sort_reverse f xs)
        = rev (filter (\<lambda>y. f y = v) (sort_key f (rev xs)))"
    by (simp add: sort_reverse_def rev_filter)
  also have "\<dots> = rev (filter (\<lambda>y. f y = v) (rev xs))"
    by (simp only: sort_key_stable)
  also have "\<dots> = filter (\<lambda>y. f y = v) xs"
    by (simp add: rev_filter)
  finally show ?thesis .
qed

lemma rerank_eq:
  "rerank lib qry docs_scores top_k =
     slice_to top_k (sort_reverse snd
       (map (\<lambda>(doc, sim). (doc, finalScore lib qry doc sim)) docs_scores))"
  by (simp add: rerank_def Let_def final_score_refines)

text \<open>In binary64 the boost is at most \<open>0.25\<close>: the sums it can take.\<close>

lemma boost_values:
  "round_double (0 + round_double (15 / 100)) \<le> 25 / 100"
  "round_double (0 + round_double (10 / 100)) \<le> 25 / 100"
  "round_double (round_double (0 + round_double (15 / 100)) + round_double (10 / 100))
     \<le> 25 / 100"
  by code_simp+

lemma financialBoost_double:
  assumes "fl lib = round_double"
  shows "financialBoost lib txt flagged \<le> 25 / 100"
  using boost_values
  by (cases "\<exists>t \<in> set financial_terms. contains (lower lib txt) t"; cases flagged)
    (simp_all add: financialBoost_def Let_def fadd_def lit_def assms)

text \<open>A similarity of \<open>2.0\<close> gives a score above \<open>1\<close>, in binary64.\<close>

lemma split_plain: "split lib_demo (lower lib_demo (page_content doc_plain))
    = [str ''lvmh'', str ''is'', str ''a'', str ''luxury'', str ''group.'']"
  "length (split lib_demo (page_content doc_plain)) = 5"
  "split lib_demo (lower lib_demo (str ''revenue'')) = [str ''revenue'']"
  by (simp_all add: split_def doc_plain_def str_def lib_demo_def)

lemma no_terms_plain:
  "\<not> (\<exists>t \<in> set financial_terms. contains (lower lib_demo (page_content doc_plain)) t)"
  by (simp add: financial_terms_def doc_plain_def str_def lib_demo_def)

lemma score_plain_double:
  "round_double
     (round_double
        (round_double
           (round_double (round_double (3 / 5) * 2)
            + round_double (round_double (1 / 5) * round_double 0))
         + round_double
             (round_double (1 / 10)
              * round_double (1 / round_double (1 + round_double (39 / 40)))))
      + round_double 0)
   = 2816174956862057 / 2251799813685248"
  by code_simp

lemma score_plain:
  "finalScore lib_demo (str ''revenue'') doc_plain 2 = 2816174956862057 / 2251799813685248"
  apply (simp only: finalScore_def keywordOverlap_def lengthFit_def financialBoost_def Let_def
      split_plain no_terms_plain if_False)
  apply (simp add: str_def fadd_def fmul_def fdiv_def truediv_def lit_def fl_demo doc_plain_def
      score_plain_double)
  done

text \<open>
  Claim C1, for a requested number of passages \<open>top_k\<close> that is not negative (the
  pipeline passes \<open>Config.top_k_final\<close>, which is 5). \<open>rerank\<close> returns the first
  \<open>top_k\<close> elements of a list \<open>ys\<close> that holds exactly the input passages, each
  with the score \<open>0.6 * similarity + 0.2 * keywordOverlap + 0.1 * lengthFit + 0.1 *
  financialBoost\<close> computed in float arithmetic; \<open>ys\<close> is in non-increasing order of
  that score, and passages of equal score keep the order they had in the input. The
  result has at most \<open>top_k\<close> elements. In binary64 the boost is at most \<open>0.25\<close>, and
  the score is not clamped: a similarity of \<open>2.0\<close> gives a score above \<open>1\<close>.
\<close>

theorem rerank_contract:
  assumes "0 \<le> top_k"
  shows "(\<exists>ys. rerank lib qry docs_scores top_k = take (nat top_k) ys
            \<and> mset ys = mset (map (\<lambda>(doc, sim). (doc, finalScore lib qry doc sim)) docs_scores)
            \<and> sorted_wrt (\<lambda>a b. snd b \<le> snd a) ys
            \<and> (\<forall>v. filter (\<lambda>p. snd p = v) ys
                     = filter (\<lambda>p. snd p = v)
                         (map (\<lambda>(doc, sim). (doc, finalScore lib qry doc sim)) docs_scores)))
         \<and> int (length (rerank lib qry docs_scores top_k)) \<le> top_k
         \<and> (fl lib = round_double \<longrightarrow> financialBoost lib txt flagged \<le> 25 / 100)
         \<and> (\<exists>sc. rerank lib_demo (str ''revenue'') [(doc_plain, 2)] 1 = [(doc_plain, sc)]
                  \<and> 1 < sc)"
proof -
  let ?rescored = "map (\<lambda>(doc, sim). (doc, finalScore lib qry doc sim)) docs_scores"
  let ?ys = "sort_reverse snd ?rescored"
  have r: "rerank lib qry docs_scores top_k = take (nat top_k) ?ys"
    using assms by (simp add: rerank_eq slice_to_def)
  have "mset ?ys = mset ?rescored"
    by (rule sort_reverse_mset)
  moreover have "sorted_wrt (\<lambda>a b. snd b \<le> snd a) ?ys"
    by (rule sort_reverse_sorted)
  moreover have "\<forall>v. filter (\<lambda>p. snd p = v) ?ys = filter (\<lambda>p. snd p = v) ?rescored"
    by (simp add: sort_reverse_stable)
  ultimately have first: "\<exists>ys. rerank lib qry docs_scores top_k = take (nat top_k) ys
            \<and> mset ys = mset ?rescored
            \<and> sorted_wrt (\<lambda>a b. snd b \<le> snd a) ys
            \<and> (\<forall>v. filter (\<lambda>p. snd p = v) ys = filter (\<lambda>p. snd p = v) ?rescored)"
    using r by blast
  have len: "int (length (rerank lib qry docs_scores top_k)) \<le> top_k"
    using assms by (simp add: r)
  have "rerank lib_demo (str ''revenue'') [(doc_plain, 2)] 1
          = [(doc_plain, 2816174956862057 / 2251799813685248)]"
    by (simp add: rerank_eq slice_to_def sort_reverse_def score_plain)
  moreover have "(1::rat) < 2816174956862057 / 2251799813685248"
    by simp
  ultimately have last: "\<exists>sc. rerank lib_demo (str ''revenue'') [(doc_plain, 2)] 1
                               = [(doc_plain, sc)] \<and> 1 < sc"
    by blast
  show ?thesis
    using first len financialBoost_double last by blast
qed

theorem rerank_contract_witness:
  "(0::int) \<le> 2 \<and> fl lib_demo = round_double
   \<and> (\<exists>ys. rerank lib_demo (str ''revenue growth'')
               [(doc_p49, lit lib_demo (80 / 100)), (doc_p11, lit lib_demo (85 / 100)),
                (doc_p10, lit lib_demo (90 / 100))] 2
              = take (nat 2) ys
            \<and> mset ys = mset (map (\<lambda>(doc, sim). (doc, finalScore lib_demo (str ''revenue growth'')
                                                        doc sim))
                                 [(doc_p49, lit lib_demo (80 / 100)), (doc_p11, lit lib_demo (85 / 100)),
                (doc_p10, lit lib_demo (90 / 100))])
            \<and> sorted_wrt (\<lambda>a b. snd b \<le> snd a) ys)
   \<and> int (length (rerank lib_demo (str ''revenue growth'')
                     [(doc_p49, lit lib_demo (80 / 100)), (doc_p11, lit lib_demo (85 / 100)),
                (doc_p10, lit lib_demo (90 / 100))] 2)) \<le> 2
   \<and> financialBoost lib_demo (page_content doc_p10) True \<le> 25 / 100"
proof -
  have h: "(0::int) \<le> 2" by simp
  show ?thesis
    using h fl_demo rerank_contract [OF h, of lib_demo "str ''revenue growth''"
        "[(doc_p49, lit lib_demo (80 / 100)), (doc_p11, lit lib_demo (85 / 100)),
                (doc_p10, lit lib_demo (90 / 100))]" "page_content doc_p10" True]
    by blast
qed

section \<open>The confidence scorer\<close>

lemma scores_present:
  "map the (filter (\<lambda>s. s \<noteq> None) (map snd ds)) = present_scores ds"
  unfolding present_scores_def
  by (induction ds) (auto split: option.splits)

lemma present_scores_empty:
  "present_scores ds = [] \<longleftrightarrow> (\<forall>p \<in> set ds. snd p = None)"
  unfolding present_scores_def
  by (induction ds) (auto split: option.splits)

text \<open>The chain of updates of \<open>score\<close> and \<open>reasons\<close>, as five steps.\<close>

lemma accumulate:
  "(let (sc, rs) = (0::rat, []::reason list);
        (sc, rs) = (if b1 then (fadd lib sc (lit lib (40 / 100)), rs)
                    else (sc, rs @ [LOW_TOP_SIMILARITY]));
        (sc, rs) = (if b2 then (fadd lib sc (lit lib (20 / 100)), rs)
                    else (sc, rs @ [LOW_AVG_SIMILARITY]));
        (sc, rs) = (if b3 then (fadd lib sc (lit lib (15 / 100)), rs)
                    else (sc, rs @ [SINGLE_PAGE_EVIDENCE]));
        (sc, rs) = (if b4 then (fadd lib sc (lit lib (15 / 100)), rs)
                    else (sc, rs @ [LOW_NUMERIC_EVIDENCE]));
        (sc, rs) = (if b5 then (fsub lib sc (lit lib (20 / 100)),
                                rs @ [ANSWER_HAS_NUMBERS_WITHOUT_SUPPORT])
                    else (sc, rs));
        sc = max 0 (min 1 sc)
    in K sc rs)
   = K (max 0 (min 1 (penalty lib b5 (20 / 100)
                        (gain lib b4 (15 / 100)
                           (gain lib b3 (15 / 100)
                              (gain lib b2 (20 / 100) (gain lib b1 (40 / 100) 0)))))))
       ((if b1 then [] else [LOW_TOP_SIMILARITY])
        @ (if b2 then [] else [LOW_AVG_SIMILARITY])
        @ (if b3 then [] else [SINGLE_PAGE_EVIDENCE])
        @ (if b4 then [] else [LOW_NUMERIC_EVIDENCE])
        @ (if b5 then [ANSWER_HAS_NUMBERS_WITHOUT_SUPPORT] else []))"
  by (cases b1; cases b2; cases b3; cases b4; cases b5; simp add: gain_def penalty_def)

lemma compute_confidence_unfold:
  assumes "present_scores docs_scores \<noteq> []"
  shows "compute_confidence lib docs_scores ans =
     (let scores = present_scores docs_scores;
          top_ok = (lit lib (55 / 100) \<le> Max (set scores));
          avg_ok = (lit lib (45 / 100) \<le> mean lib scores);
          pages_ok = (2 \<le> card (meta_page ` fst ` set docs_scores));
          flagged = length (filter (\<lambda>p. meta_has_numbers (fst p)) docs_scores);
          unsupported = ((\<exists>c \<in> set ans. isdecimal lib c) \<and> flagged = 0);
          raw = penalty lib unsupported (20 / 100)
                  (gain lib (2 \<le> flagged) (15 / 100)
                     (gain lib pages_ok (15 / 100)
                        (gain lib avg_ok (20 / 100) (gain lib top_ok (40 / 100) 0))));
          clamped = max 0 (min 1 raw)
      in \<lparr>level = level_of lib clamped, score = py_round lib clamped 3,
          reasons = (if top_ok then [] else [LOW_TOP_SIMILARITY])
                       @ (if avg_ok then [] else [LOW_AVG_SIMILARITY])
                       @ (if pages_ok then [] else [SINGLE_PAGE_EVIDENCE])
                       @ (if 2 \<le> flagged then [] else [LOW_NUMERIC_EVIDENCE])
                       @ (if unsupported then [ANSWER_HAS_NUMBERS_WITHOUT_SUPPORT] else [])\<rparr>)"
proof -
  have ne: "docs_scores \<noteq> []"
    using assms by (auto simp: present_scores_def)
  have pg: "set (map (\<lambda>(d, _). meta_page d) docs_scores) = meta_page ` fst ` set docs_scores"
    by (simp add: case_prod_beta image_image)
  have fl: "filter (\<lambda>(d, _). meta_has_numbers d) docs_scores
            = filter (\<lambda>p. meta_has_numbers (fst p)) docs_scores"
    by (rule filter_cong) auto
  have "compute_confidence lib docs_scores ans =
     (let scores = present_scores docs_scores;
          top = Max (set scores);
          avg = mean lib scores;
          has_numbers_answer = list_ex (isdecimal lib) ans;
          numeric_chunks = length (filter (\<lambda>(d, _). meta_has_numbers d) docs_scores);
          unique_pages = card (set (map (\<lambda>(d, _). meta_page d) docs_scores));
          b1 = lit lib (55 / 100) \<le> top; b2 = lit lib (45 / 100) \<le> avg;
          b3 = 2 \<le> unique_pages;
          b4 = 2 \<le> numeric_chunks; b5 = (has_numbers_answer \<and> numeric_chunks = 0);
          clamped = max 0 (min 1 (penalty lib b5 (20 / 100)
                        (gain lib b4 (15 / 100)
                           (gain lib b3 (15 / 100)
                              (gain lib b2 (20 / 100) (gain lib b1 (40 / 100) 0))))))
      in \<lparr>level = level_of lib clamped, score = py_round lib clamped 3,
          reasons = (if b1 then [] else [LOW_TOP_SIMILARITY])
        @ (if b2 then [] else [LOW_AVG_SIMILARITY])
        @ (if b3 then [] else [SINGLE_PAGE_EVIDENCE])
        @ (if b4 then [] else [LOW_NUMERIC_EVIDENCE])
        @ (if b5 then [ANSWER_HAS_NUMBERS_WITHOUT_SUPPORT] else [])\<rparr>)"
    unfolding compute_confidence_def accumulate scores_present
    using assms ne by (simp only: Let_def if_False)
  then show ?thesis
    by (simp only: Let_def pg fl list_ex_iff)
qed

lemmas float_ops = gain_def penalty_def fadd_def fsub_def fmul_def fdiv_def lit_def
  py_round_def mean_def level_of_def truediv_def fl_demo

text \<open>The worked example in double arithmetic: the four gains add up to
  \<open>0.9000000000000001\<close>, which rounds to \<open>0.9\<close>.\<close>

lemma example_top:
  "lit lib_demo (55 / 100)
   \<le> Max (set [lit lib_demo (90 / 100), lit lib_demo (85 / 100), lit lib_demo (80 / 100)])"
  unfolding float_ops by code_simp

lemma example_avg:
  "lit lib_demo (45 / 100)
   \<le> mean lib_demo [lit lib_demo (90 / 100), lit lib_demo (85 / 100), lit lib_demo (80 / 100)]"
  unfolding float_ops by code_simp

lemma example_sum:
  "gain lib_demo True (15 / 100) (gain lib_demo True (15 / 100)
     (gain lib_demo True (20 / 100) (gain lib_demo True (40 / 100) 0)))
   = 4053239664633447 / 4503599627370496"
  unfolding float_ops by code_simp

lemma example_round:
  "py_round lib_demo (4053239664633447 / 4503599627370496) 3 = lit lib_demo (90 / 100)"
  unfolding float_ops by code_simp

lemma example_level:
  "level_of lib_demo (4053239664633447 / 4503599627370496) = HIGH"
  unfolding float_ops by code_simp

lemma low_top:
  "lit lib_demo (55 / 100) \<le> Max (set [lit lib_demo (10 / 100)]) \<longleftrightarrow> False"
  unfolding float_ops by code_simp

lemma low_avg:
  "lit lib_demo (45 / 100) \<le> mean lib_demo [lit lib_demo (10 / 100)] \<longleftrightarrow> False"
  unfolding float_ops by code_simp

lemma low_sum:
  "max 0 (min 1 (penalty lib_demo True (20 / 100) 0)) = 0"
  unfolding float_ops by code_simp

lemma py_round_zero:
  "py_round lib_demo 0 3 = 0"
  unfolding float_ops by code_simp

lemma low_high:
  "lit lib_demo (75 / 100) \<le> 0 \<longleftrightarrow> False"
  unfolding float_ops by code_simp

lemma low_medium:
  "lit lib_demo (50 / 100) \<le> 0 \<longleftrightarrow> False"
  unfolding float_ops by code_simp

text \<open>
  Claim C2. The confidence scorer returns \<open>{LOW, 0.0, [NO_SOURCES]}\<close> on the empty
  passage list and \<open>{LOW, 0.0, [NO_SCORES]}\<close> when passages are present and every score
  is missing. Otherwise the score is accumulated from \<open>0.0\<close> in floating point, one
  addition per check that holds: \<open>0.40\<close> when the largest score is at least \<open>0.55\<close>,
  \<open>0.20\<close> when the mean of the scores (the correctly rounded mean that
  \<open>statistics.mean\<close> returns) is at least \<open>0.45\<close>, \<open>0.15\<close> when the passages have at
  least two distinct pages, \<open>0.15\<close> when at least two passages are flagged
  \<open>has_numbers\<close>, each check that fails giving its reason code instead, and then one
  subtraction of \<open>0.20\<close>, with its reason code, when the answer has a decimal digit (a
  character that the pattern \<open>\d\<close> matches) and no passage is flagged. The result is
  clamped to \<open>[0, 1]\<close>, the level is read from the clamped value (\<open>HIGH\<close> from \<open>0.75\<close>,
  \<open>MEDIUM\<close> from \<open>0.50\<close>), and the reported score is the clamped value rounded to three
  decimals by \<open>round\<close>. This holds for every floating-point rounding and every
  classification of characters. With the rounding of binary64, the scores
  \<open>0.90, 0.85, 0.80\<close> with three pages and three flagged passages give \<open>HIGH\<close> with
  score \<open>0.9\<close>. The function is a HOL function of its arguments, hence deterministic
  and pure.
\<close>

theorem compute_confidence_spec:
  "(docs_scores = [] \<longrightarrow>
      compute_confidence lib docs_scores ans
      = \<lparr>level = LOW, score = 0, reasons = [NO_SOURCES]\<rparr>)
   \<and> (docs_scores \<noteq> [] \<and> (\<forall>p \<in> set docs_scores. snd p = None) \<longrightarrow>
      compute_confidence lib docs_scores ans
      = \<lparr>level = LOW, score = 0, reasons = [NO_SCORES]\<rparr>)
   \<and> (docs_scores \<noteq> [] \<and> (\<exists>p \<in> set docs_scores. snd p \<noteq> None) \<longrightarrow>
      (let scores = present_scores docs_scores;
           top_ok = (lit lib (55 / 100) \<le> Max (set scores));
           avg_ok = (lit lib (45 / 100) \<le> mean lib scores);
           pages_ok = (2 \<le> card (meta_page ` fst ` set docs_scores));
           flagged = length (filter (\<lambda>p. meta_has_numbers (fst p)) docs_scores);
           unsupported = ((\<exists>c \<in> set ans. isdecimal lib c) \<and> flagged = 0);
           raw = penalty lib unsupported (20 / 100)
                   (gain lib (2 \<le> flagged) (15 / 100)
                      (gain lib pages_ok (15 / 100)
                         (gain lib avg_ok (20 / 100) (gain lib top_ok (40 / 100) 0))));
           clamped = max 0 (min 1 raw)
       in compute_confidence lib docs_scores ans =
            \<lparr>level = (if lit lib (75 / 100) \<le> clamped then HIGH
                      else if lit lib (50 / 100) \<le> clamped then MEDIUM else LOW),
             score = py_round lib clamped 3,
             reasons = (if top_ok then [] else [LOW_TOP_SIMILARITY])
                       @ (if avg_ok then [] else [LOW_AVG_SIMILARITY])
                       @ (if pages_ok then [] else [SINGLE_PAGE_EVIDENCE])
                       @ (if 2 \<le> flagged then [] else [LOW_NUMERIC_EVIDENCE])
                       @ (if unsupported then [ANSWER_HAS_NUMBERS_WITHOUT_SUPPORT] else [])\<rparr>))
   \<and> compute_confidence lib_demo
        [(doc_p10, Some (lit lib_demo (90 / 100))), (doc_p11, Some (lit lib_demo (85 / 100))),
         (doc_p49, Some (lit lib_demo (80 / 100)))] ans
      = \<lparr>level = HIGH, score = lit lib_demo (90 / 100), reasons = []\<rparr>"
proof (intro conjI impI)
  assume "docs_scores = []"
  then show "compute_confidence lib docs_scores ans
             = \<lparr>level = LOW, score = 0, reasons = [NO_SOURCES]\<rparr>"
    by (simp add: compute_confidence_def)
next
  assume "docs_scores \<noteq> [] \<and> (\<forall>p \<in> set docs_scores. snd p = None)"
  then show "compute_confidence lib docs_scores ans
             = \<lparr>level = LOW, score = 0, reasons = [NO_SCORES]\<rparr>"
    using present_scores_empty [of docs_scores]
    by (simp add: compute_confidence_def scores_present)
next
  assume "docs_scores \<noteq> [] \<and> (\<exists>p \<in> set docs_scores. snd p \<noteq> None)"
  then have "present_scores docs_scores \<noteq> []"
    using present_scores_empty [of docs_scores] by auto
  from compute_confidence_unfold [OF this, of lib ans]
  show "let scores = present_scores docs_scores;
           top_ok = (lit lib (55 / 100) \<le> Max (set scores));
           avg_ok = (lit lib (45 / 100) \<le> mean lib scores);
           pages_ok = (2 \<le> card (meta_page ` fst ` set docs_scores));
           flagged = length (filter (\<lambda>p. meta_has_numbers (fst p)) docs_scores);
           unsupported = ((\<exists>c \<in> set ans. isdecimal lib c) \<and> flagged = 0);
           raw = penalty lib unsupported (20 / 100)
                   (gain lib (2 \<le> flagged) (15 / 100)
                      (gain lib pages_ok (15 / 100)
                         (gain lib avg_ok (20 / 100) (gain lib top_ok (40 / 100) 0))));
           clamped = max 0 (min 1 raw)
       in compute_confidence lib docs_scores ans =
            \<lparr>level = (if lit lib (75 / 100) \<le> clamped then HIGH
                      else if lit lib (50 / 100) \<le> clamped then MEDIUM else LOW),
             score = py_round lib clamped 3,
             reasons = (if top_ok then [] else [LOW_TOP_SIMILARITY])
                       @ (if avg_ok then [] else [LOW_AVG_SIMILARITY])
                       @ (if pages_ok then [] else [SINGLE_PAGE_EVIDENCE])
                       @ (if 2 \<le> flagged then [] else [LOW_NUMERIC_EVIDENCE])
                       @ (if unsupported then [ANSWER_HAS_NUMBERS_WITHOUT_SUPPORT] else [])\<rparr>"
    by (simp only: Let_def level_of_def)
next
  let ?ds = "[(doc_p10, Some (lit lib_demo (90 / 100))),
              (doc_p11, Some (lit lib_demo (85 / 100))),
              (doc_p49, Some (lit lib_demo (80 / 100)))]"
  have ps: "present_scores ?ds
            = [lit lib_demo (90 / 100), lit lib_demo (85 / 100), lit lib_demo (80 / 100)]"
    by (simp add: present_scores_def)
  then have ne: "present_scores ?ds \<noteq> []"
    by simp
  have pg: "2 \<le> card (meta_page ` fst ` set ?ds) \<longleftrightarrow> True"
    by (simp add: doc_p10_def doc_p11_def doc_p49_def)
  have fg: "2 \<le> length (filter (\<lambda>p. meta_has_numbers (fst p)) ?ds) \<longleftrightarrow> True"
    "length (filter (\<lambda>p. meta_has_numbers (fst p)) ?ds) = 0 \<longleftrightarrow> False"
    by (simp_all add: doc_p10_def doc_p11_def doc_p49_def)
  have cl: "max 0 (min 1 (4053239664633447 / 4503599627370496 :: rat))
            = 4053239664633447 / 4503599627370496"
    by simp
  show "compute_confidence lib_demo ?ds ans
      = \<lparr>level = HIGH, score = lit lib_demo (90 / 100), reasons = []\<rparr>"
    unfolding compute_confidence_unfold [OF ne, of lib_demo ans] ps Let_def
    by (simp only: pg fg example_top example_avg simp_thms penalty_def if_True if_False
        example_sum cl example_round example_level append_Nil)
qed

theorem compute_confidence_spec_witness:
  "compute_confidence lib_demo [] (str ''42'')
     = \<lparr>level = LOW, score = 0, reasons = [NO_SOURCES]\<rparr>
   \<and> compute_confidence lib_demo [(doc_p10, None)] (str ''42'')
       = \<lparr>level = LOW, score = 0, reasons = [NO_SCORES]\<rparr>
   \<and> compute_confidence lib_demo
        [(doc_plain, None), (doc_plain, Some (lit lib_demo (10 / 100)))] (str ''42'')
       = \<lparr>level = LOW, score = 0,
          reasons = [LOW_TOP_SIMILARITY, LOW_AVG_SIMILARITY, SINGLE_PAGE_EVIDENCE,
                     LOW_NUMERIC_EVIDENCE, ANSWER_HAS_NUMBERS_WITHOUT_SUPPORT]\<rparr>"
proof -
  let ?ds = "[(doc_plain, None), (doc_plain, Some (lit lib_demo (10 / 100)))]"
  have d: "\<exists>c \<in> set (str ''42''). isdecimal lib_demo c"
    by (simp add: str_def lib_demo_def)
  have h1: "([] :: (document \<times> rat option) list) = []"
    by simp
  have h2: "[(doc_p10, None :: rat option)] \<noteq> []
            \<and> (\<forall>p \<in> set [(doc_p10, None :: rat option)]. snd p = None)"
    by simp
  have h3: "?ds \<noteq> [] \<and> (\<exists>p \<in> set ?ds. snd p \<noteq> None)"
    by (intro conjI bexI [of _ "(doc_plain, Some (lit lib_demo (10 / 100)))"]) simp_all
  have ps: "present_scores ?ds = [lit lib_demo (10 / 100)]"
    by (simp add: present_scores_def)
  have pg: "2 \<le> card (meta_page ` fst ` set ?ds) \<longleftrightarrow> False"
    by simp
  have fg: "2 \<le> length (filter (\<lambda>p. meta_has_numbers (fst p)) ?ds) \<longleftrightarrow> False"
    "length (filter (\<lambda>p. meta_has_numbers (fst p)) ?ds) = 0 \<longleftrightarrow> True"
    by (simp_all add: doc_plain_def)
  note t = compute_confidence_spec [of ?ds lib_demo "str ''42''", THEN conjunct2,
      THEN conjunct2, THEN conjunct1, rule_format, OF h3]
  have c3: "compute_confidence lib_demo ?ds (str ''42'')
       = \<lparr>level = LOW, score = 0,
          reasons = [LOW_TOP_SIMILARITY, LOW_AVG_SIMILARITY, SINGLE_PAGE_EVIDENCE,
                     LOW_NUMERIC_EVIDENCE, ANSWER_HAS_NUMBERS_WITHOUT_SUPPORT]\<rparr>"
    using t unfolding ps Let_def
    by (simp only: pg fg d low_top low_avg simp_thms gain_def if_True if_False low_sum
        py_round_zero low_high low_medium append_Nil append_Cons)
  show ?thesis
    using compute_confidence_spec [of "[]" lib_demo "str ''42''", THEN conjunct1,
        rule_format, OF h1]
      compute_confidence_spec [of "[(doc_p10, None)]" lib_demo "str ''42''", THEN conjunct2,
        THEN conjunct1, rule_format, OF h2] c3
    by simp
qed

section \<open>The empty question\<close>

lemma finalize_no_write:
  "finalize lib cfg w question ans docs_scores (time_start w) False False s =
     (Inr (length (heap s)),
      s\<lparr>heap := heap s @ [built_result lib w ans docs_scores],
        metrics := count_uncached (latency lib w) (metrics s)\<rparr>)"
  by (simp add: finalize_def alloc_def Let_def built_result_def latency_def count_uncached_def)

lemma query_empty_path:
  assumes "strip lib (case question of None \<Rightarrow> [] | Some q \<Rightarrow> q) = []"
  shows "query lib cfg w question top_k use_cache use_rerank s =
     (Inr (length (heap s)),
      s\<lparr>heap := heap s @ [built_result lib w (str ''Empty question.'') []],
        metrics := count_uncached (latency lib w) (count_query (metrics s))\<rparr>)"
  using assms
  by (simp add: query_def Let_def finalize_no_write count_query_def)

lemma built_result_empty:
  "built_result lib w ans [] =
     \<lparr>answer = ans, sources = [], evidence = [],
      confidence = \<lparr>level = LOW, score = 0, reasons = [NO_SOURCES]\<rparr>,
      latency_ms = latency lib w, from_cache = False,
      timestamp = isoformat lib (now_stamp w)\<rparr>"
  by (simp add: built_result_def format_sources_def build_evidence_def compute_confidence_def)

lemma strip_blank: "strip lib_demo [0x20, 0xA0, 0x2003, 0x3000, 0x0A] = []"
  by (simp add: strip_def lib_demo_def)

lemma round_double_eighth: "round_double (1 / 8) = 1 / 8"
  by code_simp

lemma round_double_125: "round_double 125 = 125"
  by code_simp

lemma latency_demo: "latency lib_demo (world_demo t) = 125"
  by (simp add: latency_def world_demo_def int_of_float_def fsub_def fmul_def fl_demo
      round_double_eighth round_double_125)

text \<open>
  Claim C3. A question that is empty once trimmed, whatever characters \<open>str.strip\<close>
  takes for whitespace, never raises: \<open>query\<close> returns a result whose answer is
  \<open>"Empty question."\<close>, with no sources and no evidence, confidence level \<open>LOW\<close> and
  \<open>from_cache\<close> false, and the cache is left exactly as it was.
\<close>

theorem query_blank_question:
  assumes "strip lib q = []"
  shows "\<exists>r s'. query lib cfg w (Some q) top_k use_cache use_rerank s = (Inr r, s')
           \<and> answer (heap s' ! r) = str ''Empty question.''
           \<and> sources (heap s' ! r) = [] \<and> evidence (heap s' ! r) = []
           \<and> level (confidence (heap s' ! r)) = LOW
           \<and> from_cache (heap s' ! r) = False
           \<and> cache s' = cache s"
  using assms
  by (simp add: query_empty_path built_result_empty)

theorem query_blank_question_witness:
  "strip lib_demo [0x20, 0xA0, 0x2003, 0x3000, 0x0A] = []
   \<and> (\<exists>r s'. query lib_demo Config (world_demo 10) (Some [0x20, 0xA0, 0x2003, 0x3000, 0x0A])
                 None True True init = (Inr r, s')
           \<and> answer (heap s' ! r) = str ''Empty question.''
           \<and> sources (heap s' ! r) = [] \<and> evidence (heap s' ! r) = []
           \<and> level (confidence (heap s' ! r)) = LOW
           \<and> from_cache (heap s' ! r) = False
           \<and> cache s' = cache init)"
  using strip_blank
    query_blank_question [OF strip_blank, of Config "world_demo 10" None True True init]
  by blast

text \<open>
  Claim C10. \<open>query(None)\<close> does not raise: \<open>None\<close> is taken as the empty string and the
  call returns the \<open>"Empty question."\<close> result, with no sources and no evidence, confidence
  level \<open>LOW\<close> and \<open>from_cache\<close> false, and writes nothing to the cache.
\<close>

theorem query_none_question:
  "\<exists>r s'. query lib cfg w None top_k use_cache use_rerank s = (Inr r, s')
           \<and> answer (heap s' ! r) = str ''Empty question.''
           \<and> sources (heap s' ! r) = [] \<and> evidence (heap s' ! r) = []
           \<and> level (confidence (heap s' ! r)) = LOW
           \<and> from_cache (heap s' ! r) = False
           \<and> cache s' = cache s"
proof -
  have "strip lib (case None :: pystr option of None \<Rightarrow> [] | Some q \<Rightarrow> q) = []"
    by (simp add: strip_def)
  then show ?thesis
    by (simp add: query_empty_path built_result_empty)
qed

theorem query_none_question_witness:
  "(\<exists>r s'. query lib_demo Config (world_demo 10) None None True True init = (Inr r, s')
           \<and> answer (heap s' ! r) = str ''Empty question.''
           \<and> sources (heap s' ! r) = [] \<and> evidence (heap s' ! r) = []
           \<and> level (confidence (heap s' ! r)) = LOW
           \<and> from_cache (heap s' ! r) = False
           \<and> cache s' = cache init)
   \<and> cache init = []"
  using query_none_question [of lib_demo Config "world_demo 10" None True True init]
  by (simp add: init_def)

text \<open>
  Claim C4, as the code has it. A call with a question that is empty once trimmed,
  whatever characters \<open>str.strip\<close> takes for whitespace, adds one to \<open>total_queries\<close>
  and its latency to the end-to-end sum, and it is counted as an uncached call as well:
  \<open>_finalize\<close> is entered with \<open>from_cache = False\<close>, so \<open>uncached_queries\<close> grows by
  one and the uncached sum by the same latency. The count of cache hits does not change.
\<close>

theorem query_blank_metrics:
  assumes "strip lib q = []"
  shows "metrics (snd (query lib cfg w (Some q) top_k use_cache use_rerank s))
         = (metrics s)\<lparr>total_queries := total_queries (metrics s) + 1,
               total_latency_ms_e2e := total_latency_ms_e2e (metrics s) + latency lib w,
               uncached_queries := uncached_queries (metrics s) + 1,
               total_latency_ms_uncached :=
                 total_latency_ms_uncached (metrics s) + latency lib w\<rparr>"
  using assms
  by (simp add: query_empty_path count_uncached_def count_query_def)

text \<open>
  Claim C4 as stated says that the empty call leaves \<open>uncached_queries\<close> and the
  uncached sum alone. On a fresh pipeline a blank question taking 125 ms raises them
  from \<open>0\<close> to \<open>1\<close> and from \<open>0\<close> to \<open>125\<close>.
\<close>

theorem query_blank_uncached_counterexample:
  "strip lib_demo (str ''  '') = []
   \<and> uncached_queries (metrics (snd (query lib_demo Config (world_demo 10) (Some (str ''  ''))
                                       None True True init))) = 1
   \<and> uncached_queries (metrics init) = 0
   \<and> total_latency_ms_uncached (metrics (snd (query lib_demo Config (world_demo 10)
                                                 (Some (str ''  '')) None True True init))) = 125
   \<and> total_latency_ms_uncached (metrics init) = 0"
proof -
  have h: "strip lib_demo (case Some (str ''  '') of None \<Rightarrow> [] | Some q \<Rightarrow> q) = []"
    by (simp add: strip_def str_def lib_demo_def)
  show ?thesis
    unfolding query_empty_path [OF h] latency_demo
    by (simp add: count_uncached_def count_query_def init_def strip_def str_def lib_demo_def)
qed

theorem query_blank_metrics_witness:
  "strip lib_demo [0xA0, 0x3000] = []
   \<and> metrics (snd (query lib_demo Config (world_demo 10) (Some [0xA0, 0x3000]) None True True
                     init))
       = \<lparr>total_queries = 1, cache_hits = 0, total_latency_ms_e2e = 125,
          total_latency_ms_uncached = 125, uncached_queries = 1\<rparr>"
proof -
  have h: "strip lib_demo [0xA0, 0x3000] = []"
    by (simp add: strip_def lib_demo_def)
  show ?thesis
    using h query_blank_metrics [OF h, of Config "world_demo 10" None True True init]
    by (simp add: latency_demo init_def)
qed

section \<open>The cache\<close>

lemma length_update_le: "length (AList.update k v al) \<le> Suc (length al)"
  by (induction al) auto

lemma length_delete_distinct:
  "distinct (map fst al) \<Longrightarrow> k \<in> fst ` set al \<Longrightarrow> Suc (length (AList.delete k al)) = length al"
proof (induction al)
  case Nil
  then show ?case by simp
next
  case (Cons p al)
  show ?case
  proof (cases "fst p = k")
    case True
    then have "k \<notin> fst ` set al"
      using Cons.prems(1) by auto
    then show ?thesis
      using True by (simp add: AList.delete_id)
  next
    case False
    then show ?thesis
      using Cons by auto
  qed
qed

lemma min_from_mem: "min_from f best xs \<in> set (best # xs)"
  by (induction xs arbitrary: best) auto

lemma min_from_least: "x \<in> set (best # xs) \<Longrightarrow> f (min_from f best xs) \<le> f x"
proof (induction xs arbitrary: best x)
  case Nil
  then show ?case by simp
next
  case (Cons y ys)
  let ?b = "if f y < f best then y else best"
  have step: "f (min_from f ?b ys) \<le> f ?b"
    using Cons.IH [where best = ?b and x = ?b] by simp
  show ?case
  proof (cases "x \<in> set ys")
    case True
    then show ?thesis
      using Cons.IH [where best = ?b and x = x] by simp
  next
    case False
    then have "x = best \<or> x = y"
      using Cons.prems by auto
    then show ?thesis
      using step by (auto split: if_splits)
  qed
qed

lemma oldest_key_Nil: "oldest_key [] = Inl ValueError"
  by (simp add: oldest_key_def)

lemma oldest_key_Cons:
  assumes "c \<noteq> []"
  shows "\<exists>k a t. oldest_key c = Inr k \<and> (k, a, t) \<in> set c \<and> (\<forall>e \<in> set c. t \<le> snd (snd e))"
proof -
  obtain e es where c: "c = e # es"
    using assms by (cases c) auto
  let ?m = "min_from (\<lambda>e. snd (snd e)) e es"
  have "?m \<in> set c"
    using min_from_mem [of "\<lambda>e. snd (snd e)" e es] c by simp
  moreover have "\<forall>x \<in> set c. snd (snd ?m) \<le> snd (snd x)"
    using min_from_least [of _ e es "\<lambda>e. snd (snd e)"] c by simp
  moreover have "oldest_key c = Inr (fst ?m)"
    by (simp add: oldest_key_def c)
  ultimately show ?thesis
    by (metis prod.collapse)
qed

lemma get_cache_miss:
  "map_of (cache s) (get_cache_key lib q) = None \<Longrightarrow> get_cache lib cfg now q s = (None, s)"
  by (simp add: get_cache_def)

lemma get_cache_expired:
  "map_of (cache s) (get_cache_key lib q) = Some (a, ts) \<Longrightarrow>
   timedelta_seconds (cache_ttl cfg) < now - ts \<Longrightarrow>
   get_cache lib cfg now q s = (None, s\<lparr>cache := AList.delete (get_cache_key lib q) (cache s)\<rparr>)"
  by (simp add: get_cache_def)

lemma get_cache_fresh:
  "map_of (cache s) (get_cache_key lib q) = Some (a, ts) \<Longrightarrow>
   \<not> timedelta_seconds (cache_ttl cfg) < now - ts \<Longrightarrow>
   get_cache lib cfg now q s = (Some a, s)"
  by (simp add: get_cache_def)

lemma set_cache_room:
  "int (length (cache s)) < cache_max_size cfg \<Longrightarrow>
   set_cache lib cfg now q r s =
     Inr (s\<lparr>heap := heap s @ [heap s ! r],
            cache := AList.update (get_cache_key lib q) (length (heap s), now) (cache s)\<rparr>)"
  by (simp add: set_cache_def alloc_def)

lemma set_cache_full:
  "cache_max_size cfg \<le> int (length (cache s)) \<Longrightarrow> oldest_key (cache s) = Inr k \<Longrightarrow>
   set_cache lib cfg now q r s =
     Inr (s\<lparr>heap := heap s @ [heap s ! r],
            cache := AList.update (get_cache_key lib q) (length (heap s), now)
                       (AList.delete k (cache s))\<rparr>)"
  by (simp add: set_cache_def alloc_def)

lemma set_cache_raises:
  "cache_max_size cfg \<le> int (length (cache s)) \<Longrightarrow> cache s = [] \<Longrightarrow>
   set_cache lib cfg now q r s = Inl ValueError"
  by (simp add: set_cache_def oldest_key_def)

text \<open>What a successful write leaves behind.\<close>

lemma set_cache_Inr:
  assumes "set_cache lib cfg now q r s = Inr s'"
  shows "heap s' = heap s @ [heap s ! r] \<and> metrics s' = metrics s
         \<and> map_of (cache s') (get_cache_key lib q) = Some (length (heap s), now)"
proof (cases "int (length (cache s)) < cache_max_size cfg")
  case True
  then show ?thesis
    using assms by (auto simp: set_cache_room AList.update_conv')
next
  case False
  then have full: "cache_max_size cfg \<le> int (length (cache s))"
    by simp
  have "cache s \<noteq> []"
    using assms set_cache_raises [OF full] by auto
  then obtain k where "oldest_key (cache s) = Inr k"
    using oldest_key_Cons by blast
  then show ?thesis
    using assms full by (auto simp: set_cache_full AList.update_conv')
qed

lemma set_cache_demo:
  "set_cache lib_demo Config 0 (str ''q'') 0 pipeline_demo = Inr pipeline_cached"
proof -
  have "int (length (cache pipeline_demo)) < cache_max_size Config"
    by (simp add: pipeline_demo_def init_def Config_def)
  then show ?thesis
    by (simp add: set_cache_room pipeline_cached_def pipeline_demo_def init_def get_cache_key_def
        lib_demo_def strip_def str_def)
qed

text \<open>
  Claim C5, with the boundary the code has. An entry written at time \<open>T\<close> is found
  absent, and is removed from the cache by that read, at every time later than
  \<open>T + TTL\<close>; a read at \<open>T + TTL\<close> or before returns the address of the stored copy of
  the result. The test in \<open>_get_cache\<close> is \<open>now - ts > timedelta(seconds=TTL)\<close>.
\<close>

theorem cache_ttl_expiry:
  assumes "set_cache lib cfg T q r s = Inr s1"
  shows "(T + timedelta_seconds (cache_ttl cfg) < now \<longrightarrow>
            fst (get_cache lib cfg now q s1) = None
            \<and> get_cache_key lib q \<notin> fst ` set (cache (snd (get_cache lib cfg now q s1))))
         \<and> (now \<le> T + timedelta_seconds (cache_ttl cfg) \<longrightarrow>
            (\<exists>a. get_cache lib cfg now q s1 = (Some a, s1) \<and> heap s1 ! a = heap s ! r))"
proof -
  have m: "map_of (cache s1) (get_cache_key lib q) = Some (length (heap s), T)"
    and h: "heap s1 = heap s @ [heap s ! r]"
    using set_cache_Inr [OF assms] by simp_all
  show ?thesis
  proof (intro conjI impI)
    assume "T + timedelta_seconds (cache_ttl cfg) < now"
    then have e: "timedelta_seconds (cache_ttl cfg) < now - T"
      by simp
    show "fst (get_cache lib cfg now q s1) = None"
      by (simp add: get_cache_expired [OF m e])
    show "get_cache_key lib q \<notin> fst ` set (cache (snd (get_cache lib cfg now q s1)))"
      by (simp add: get_cache_expired [OF m e] AList.delete_notin_dom)
  next
    assume "now \<le> T + timedelta_seconds (cache_ttl cfg)"
    then have f: "\<not> timedelta_seconds (cache_ttl cfg) < now - T"
      by simp
    show "\<exists>a. get_cache lib cfg now q s1 = (Some a, s1) \<and> heap s1 ! a = heap s ! r"
      by (simp add: get_cache_fresh [OF m f] h)
  qed
qed

theorem cache_ttl_expiry_witness:
  "set_cache lib_demo Config 0 (str ''q'') 0 pipeline_demo = Inr pipeline_cached
   \<and> fst (get_cache lib_demo Config 3600000001 (str ''q'') pipeline_cached) = None
   \<and> cache (snd (get_cache lib_demo Config 3600000001 (str ''q'') pipeline_cached)) = []
   \<and> get_cache lib_demo Config 3600000000 (str ''q'') pipeline_cached = (Some 1, pipeline_cached)
   \<and> heap pipeline_cached ! 1 = heap pipeline_demo ! 0"
proof -
  have k: "get_cache_key lib_demo (str ''q'') = str ''q''"
    by (simp add: get_cache_key_def lib_demo_def strip_def str_def)
  have c: "cache pipeline_cached = [(str (''q''), 1, 0)]"
    by (simp add: pipeline_cached_def)
  have t: "timedelta_seconds (cache_ttl Config) = 3600000000"
    by (simp add: timedelta_seconds_def Config_def)
  have late: "0 + timedelta_seconds (cache_ttl Config) < 3600000001"
    and early: "3600000000 \<le> 0 + timedelta_seconds (cache_ttl Config)"
    by (simp_all add: t)
  note w = cache_ttl_expiry [OF set_cache_demo]
  have "fst (get_cache lib_demo Config 3600000001 (str ''q'') pipeline_cached) = None"
    using w [of 3600000001] late by blast
  moreover have
    "cache (snd (get_cache lib_demo Config 3600000001 (str ''q'') pipeline_cached)) = []"
    by (simp add: get_cache_def k c t)
  moreover obtain a where
    "get_cache lib_demo Config 3600000000 (str ''q'') pipeline_cached = (Some a, pipeline_cached)"
    "heap pipeline_cached ! a = heap pipeline_demo ! 0"
    using w [of 3600000000] early by blast
  moreover have "fst (get_cache lib_demo Config 3600000000 (str ''q'') pipeline_cached) = Some 1"
    by (simp add: get_cache_def k c t)
  ultimately show ?thesis
    using set_cache_demo by simp
qed

text \<open>
  Claim C5 as stated has the entry absent from \<open>T + TTL\<close> on. With the configured
  \<open>TTL\<close> of 3600 seconds, an entry written at time \<open>0\<close> and read exactly 3600
  seconds later is returned, and stays in the cache.
\<close>

theorem cache_ttl_boundary_counterexample:
  "set_cache lib_demo Config 0 (str ''q'') 0 pipeline_demo = Inr pipeline_cached
   \<and> cache_ttl Config = 3600
   \<and> get_cache lib_demo Config (0 + timedelta_seconds 3600) (str ''q'') pipeline_cached
       = (Some 1, pipeline_cached)
   \<and> heap pipeline_cached ! 1 = result_demo"
proof -
  have k: "get_cache_key lib_demo (str ''q'') = str ''q''"
    by (simp add: get_cache_key_def lib_demo_def strip_def str_def)
  have c: "cache pipeline_cached = [(str (''q''), 1, 0)]"
    by (simp add: pipeline_cached_def)
  show ?thesis
    using set_cache_demo
    by (simp add: get_cache_def k c timedelta_seconds_def Config_def)
      (simp add: pipeline_cached_def)
qed

lemma apply_op_bounded:
  assumes "1 \<le> cache_max_size cfg"
    and "distinct (map fst (cache s))"
    and "int (length (cache s)) \<le> cache_max_size cfg"
  shows "distinct (map fst (cache (apply_op lib cfg op s)))
         \<and> int (length (cache (apply_op lib cfg op s))) \<le> cache_max_size cfg"
proof (cases op)
  case (Get now q)
  have "length (AList.delete (get_cache_key lib q) (cache s)) \<le> length (cache s)"
    by (rule AList.length_delete_le)
  then show ?thesis
    using assms Get
    by (auto simp: get_cache_def Let_def AList.distinct_delete split: option.splits)
next
  case (Set now q d)
  let ?s = "s\<lparr>heap := heap s @ [d]\<rparr>"
  let ?key = "get_cache_key lib q"
  let ?v = "(length (heap ?s), now)"
  have ap: "apply_op lib cfg op s =
            (case set_cache lib cfg now q (length (heap s)) ?s of Inl e \<Rightarrow> ?s | Inr s' \<Rightarrow> s')"
    by (simp add: Set alloc_def Let_def)
  show ?thesis
  proof (cases "int (length (cache s)) < cache_max_size cfg")
    case True
    then have "set_cache lib cfg now q (length (heap s)) ?s =
        Inr (?s\<lparr>heap := heap ?s @ [heap ?s ! length (heap s)],
                cache := AList.update ?key ?v (cache ?s)\<rparr>)"
      using set_cache_room [of ?s cfg lib now q "length (heap s)"] by simp
    moreover have "length (AList.update ?key ?v (cache s)) \<le> Suc (length (cache s))"
      by (rule length_update_le)
    ultimately show ?thesis
      using True assms(2) by (simp add: ap AList.distinct_update)
  next
    case False
    then have full: "cache_max_size cfg \<le> int (length (cache ?s))"
      by simp
    then have "cache ?s \<noteq> []"
      using assms(1) by auto
    then obtain k a t where k: "oldest_key (cache ?s) = Inr k" "(k, a, t) \<in> set (cache ?s)"
      using oldest_key_Cons by blast
    have "k \<in> fst ` set (cache s)"
      using k(2) by force
    then have "Suc (length (AList.delete k (cache s))) = length (cache s)"
      using assms(2) by (rule length_delete_distinct [rotated])
    moreover have "length (AList.update ?key ?v (AList.delete k (cache s)))
                   \<le> Suc (length (AList.delete k (cache s)))"
      by (rule length_update_le)
    moreover have "set_cache lib cfg now q (length (heap s)) ?s =
        Inr (?s\<lparr>heap := heap ?s @ [heap ?s ! length (heap s)],
                cache := AList.update ?key ?v (AList.delete k (cache ?s))\<rparr>)"
      using set_cache_full [OF full k(1)] by simp
    ultimately show ?thesis
      using assms(2,3) by (simp add: ap AList.distinct_update AList.distinct_delete)
  qed
qed

lemma apply_ops_bounded:
  assumes "1 \<le> cache_max_size cfg"
  shows "distinct (map fst (cache s)) \<Longrightarrow> int (length (cache s)) \<le> cache_max_size cfg \<Longrightarrow>
         distinct (map fst (cache (apply_ops lib cfg ops s)))
         \<and> int (length (cache (apply_ops lib cfg ops s))) \<le> cache_max_size cfg"
proof (induction ops arbitrary: s)
  case Nil
  then show ?case by (simp add: apply_ops_def)
next
  case (Cons op ops)
  have "apply_ops lib cfg (op # ops) s = apply_ops lib cfg ops (apply_op lib cfg op s)"
    by (simp add: apply_ops_def)
  then show ?case
    using Cons.IH [of "apply_op lib cfg op s"] apply_op_bounded [OF assms Cons.prems]
    by simp
qed

text \<open>
  Claim C6, for a configured maximum of at least one entry (\<open>src/config.py\<close> sets 500).
  A write into a cache that holds at least the maximum number of entries succeeds; it
  removes one entry, whose time of insertion is the least among the entries, and then
  stores the new entry. From the empty cache, any sequence of reads and writes leaves
  a cache of at most the maximum number of entries, under distinct keys.
\<close>

theorem cache_capacity:
  assumes "1 \<le> cache_max_size cfg"
  shows "(cache_max_size cfg \<le> int (length (cache s)) \<and> distinct (map fst (cache s)) \<longrightarrow>
            (\<exists>k a t. (k, a, t) \<in> set (cache s) \<and> (\<forall>e \<in> set (cache s). t \<le> snd (snd e))
               \<and> Suc (length (AList.delete k (cache s))) = length (cache s)
               \<and> set_cache lib cfg now q r s =
                   Inr (s\<lparr>heap := heap s @ [heap s ! r],
                          cache := AList.update (get_cache_key lib q) (length (heap s), now)
                                     (AList.delete k (cache s))\<rparr>)))
         \<and> int (length (cache (apply_ops lib cfg ops init))) \<le> cache_max_size cfg
         \<and> distinct (map fst (cache (apply_ops lib cfg ops init)))"
proof (intro conjI impI)
  assume h: "cache_max_size cfg \<le> int (length (cache s)) \<and> distinct (map fst (cache s))"
  then have "cache s \<noteq> []"
    using assms by auto
  then obtain k a t where k: "oldest_key (cache s) = Inr k" "(k, a, t) \<in> set (cache s)"
    "\<forall>e \<in> set (cache s). t \<le> snd (snd e)"
    using oldest_key_Cons by blast
  have "k \<in> fst ` set (cache s)"
    using k(2) by force
  then have "Suc (length (AList.delete k (cache s))) = length (cache s)"
    using h by (simp add: length_delete_distinct)
  then show "\<exists>k a t. (k, a, t) \<in> set (cache s) \<and> (\<forall>e \<in> set (cache s). t \<le> snd (snd e))
               \<and> Suc (length (AList.delete k (cache s))) = length (cache s)
               \<and> set_cache lib cfg now q r s =
                   Inr (s\<lparr>heap := heap s @ [heap s ! r],
                          cache := AList.update (get_cache_key lib q) (length (heap s), now)
                                     (AList.delete k (cache s))\<rparr>)"
    using k h set_cache_full [of cfg s k lib now q r] by blast
next
  have i: "distinct (map fst (cache init))" "int (length (cache init)) \<le> cache_max_size cfg"
    using assms by (simp_all add: init_def)
  show "int (length (cache (apply_ops lib cfg ops init))) \<le> cache_max_size cfg"
    and "distinct (map fst (cache (apply_ops lib cfg ops init)))"
    using apply_ops_bounded [OF assms i] by simp_all
qed

theorem cache_capacity_witness:
  "1 \<le> cache_max_size config_small
   \<and> cache_max_size config_small \<le> int (length (cache pipeline_full))
   \<and> distinct (map fst (cache pipeline_full))
   \<and> set_cache lib_demo config_small 30 (str ''c'') 2 pipeline_full
       = Inr (pipeline_full\<lparr>heap := [result_demo, result_demo, result_demo, result_demo],
                           cache := [(str (''a''), 0, 20), (str (''c''), 3, 30)]\<rparr>)
   \<and> int (length (cache (apply_ops lib_demo config_small
                            [Set 1 (str ''a'') result_demo, Set 2 (str ''b'') result_demo,
                             Set 3 (str ''c'') result_demo, Get 4 (str ''a'')] init))) \<le> 2"
proof -
  have h1: "1 \<le> cache_max_size config_small"
    by (simp add: config_small_def)
  have h2: "cache_max_size config_small \<le> int (length (cache pipeline_full))
            \<and> distinct (map fst (cache pipeline_full))"
    by (simp add: config_small_def pipeline_full_def str_def)
  have key: "get_cache_key lib_demo (str ''c'') = str ''c''"
    by (simp add: get_cache_key_def lib_demo_def strip_def str_def)
  note w = cache_capacity [OF h1, of pipeline_full lib_demo 30 "str ''c''" 2
      "[Set 1 (str ''a'') result_demo, Set 2 (str ''b'') result_demo,
        Set 3 (str ''c'') result_demo, Get 4 (str ''a'')]"]
  from w h2 obtain k a t where
    m: "(k, a, t) \<in> set (cache pipeline_full)" "\<forall>e \<in> set (cache pipeline_full). t \<le> snd (snd e)"
    and r: "set_cache lib_demo config_small 30 (str ''c'') 2 pipeline_full =
              Inr (pipeline_full\<lparr>heap := heap pipeline_full @ [heap pipeline_full ! 2],
                     cache := AList.update (get_cache_key lib_demo (str ''c''))
                                (length (heap pipeline_full), 30)
                                (AList.delete k (cache pipeline_full))\<rparr>)"
    by blast
  from m have "k = str ''b''"
    by (auto simp: pipeline_full_def)
  with r have "set_cache lib_demo config_small 30 (str ''c'') 2 pipeline_full
       = Inr (pipeline_full\<lparr>heap := [result_demo, result_demo, result_demo, result_demo],
                           cache := [(str (''a''), 0, 20), (str (''c''), 3, 30)]\<rparr>)"
    by (simp add: key) (simp add: pipeline_full_def str_def)
  moreover have "int (length (cache (apply_ops lib_demo config_small
                            [Set 1 (str ''a'') result_demo, Set 2 (str ''b'') result_demo,
                             Set 3 (str ''c'') result_demo, Get 4 (str ''a'')] init))) \<le> 2"
    using w by (simp add: config_small_def)
  ultimately show ?thesis
    using h1 h2 by simp
qed

section \<open>The paths of a query\<close>

lemma get_cache_frame:
  "heap (snd (get_cache lib cfg now q s)) = heap s
   \<and> metrics (snd (get_cache lib cfg now q s)) = metrics s"
  by (simp add: get_cache_def Let_def split: option.splits prod.splits)

lemma get_cache_Some:
  "get_cache lib cfg now q s = (Some a, s') \<Longrightarrow>
   s' = s \<and> (\<exists>ts. map_of (cache s) (get_cache_key lib q) = Some (a, ts)
                 \<and> \<not> timedelta_seconds (cache_ttl cfg) < now - ts)"
  by (auto simp: get_cache_def Let_def split: option.splits prod.splits if_splits)

lemma get_cache_None:
  "get_cache lib cfg now q s = (None, s') \<Longrightarrow>
   s' = s \<or> s' = s\<lparr>cache := AList.delete (get_cache_key lib q) (cache s)\<rparr>"
  by (auto simp: get_cache_def Let_def split: option.splits prod.splits if_splits)

text \<open>The lines of \<open>query\<close> that answer from the cache.\<close>

lemma query_hit:
  assumes "strip lib q \<noteq> []" and "use_cache" and "enable_cache cfg"
    and "map_of (cache s) (get_cache_key lib (strip lib q)) = Some (a, ts)"
    and "\<not> timedelta_seconds (cache_ttl cfg) < now_get w - ts"
  shows "query lib cfg w (Some q) top_k use_cache use_rerank s =
     (Inr (length (heap s)),
      s\<lparr>heap := heap s @ [(heap s ! a)\<lparr>from_cache := True, latency_ms := latency lib w,
                                       timestamp := isoformat lib (now_stamp w)\<rparr>],
        metrics := count_hit (latency lib w) (count_query (metrics s))\<rparr>)"
proof -
  let ?s0 = "s\<lparr>metrics := (metrics s)\<lparr>total_queries := total_queries (metrics s) + 1\<rparr>\<rparr>"
  have "map_of (cache ?s0) (get_cache_key lib (strip lib q)) = Some (a, ts)"
    using assms(4) by simp
  then have g: "get_cache lib cfg (now_get w) (strip lib q) ?s0 = (Some a, ?s0)"
    using assms(5) by (rule get_cache_fresh)
  show ?thesis
    unfolding query_def Let_def
    using assms(1,2,3)
    by (simp add: g alloc_def assign_def latency_def count_hit_def count_query_def)
qed

text \<open>
  Claim C7. On a cache hit the caller receives a new dictionary, at an address other
  than the stored one, equal to the stored entry except for \<open>from_cache = True\<close> and
  the latency and timestamp of this call. The call adds one to \<open>total_queries\<close> and to
  \<open>cache_hits\<close> and its latency to the end-to-end sum; \<open>uncached_queries\<close> and the
  uncached sum are unchanged. The cache is unchanged, and the stored dictionary, like
  every dictionary that existed before the call, keeps all its fields. The hypothesis
  that the cached address is in the store holds in every state reached from \<open>init\<close>
  (\<open>wf_after_calls\<close>).
\<close>

theorem query_cache_hit:
  assumes "strip lib q \<noteq> []" and "use_cache" and "enable_cache cfg"
    and "map_of (cache s) (get_cache_key lib (strip lib q)) = Some (a, ts)"
    and "\<not> timedelta_seconds (cache_ttl cfg) < now_get w - ts"
    and "a < length (heap s)"
  shows "\<exists>r s'. query lib cfg w (Some q) top_k use_cache use_rerank s = (Inr r, s')
           \<and> r \<noteq> a
           \<and> heap s' ! r = (heap s ! a)\<lparr>from_cache := True, latency_ms := latency lib w,
                                         timestamp := isoformat lib (now_stamp w)\<rparr>
           \<and> total_queries (metrics s') = total_queries (metrics s) + 1
           \<and> cache_hits (metrics s') = cache_hits (metrics s) + 1
           \<and> total_latency_ms_e2e (metrics s') = total_latency_ms_e2e (metrics s) + latency lib w
           \<and> uncached_queries (metrics s') = uncached_queries (metrics s)
           \<and> total_latency_ms_uncached (metrics s') = total_latency_ms_uncached (metrics s)
           \<and> cache s' = cache s
           \<and> heap s' ! a = heap s ! a
           \<and> (\<forall>i < length (heap s). heap s' ! i = heap s ! i)"
  using assms(6)
  by (simp add: query_hit [OF assms(1-5)] count_hit_def count_query_def nth_append)

lemma finalize_write:
  "finalize lib cfg w question ans docs_scores (time_start w) False True s =
     (case set_cache lib cfg (now_set w) question (length (heap s))
             (s\<lparr>heap := heap s @ [built_result lib w ans docs_scores],
                metrics := count_uncached (latency lib w) (metrics s)\<rparr>) of
        Inl e \<Rightarrow> (Inl e, s\<lparr>heap := heap s @ [built_result lib w ans docs_scores],
                           metrics := count_uncached (latency lib w) (metrics s)\<rparr>)
      | Inr s' \<Rightarrow> (Inr (length (heap s)), s'))"
  by (simp add: finalize_def alloc_def Let_def built_result_def latency_def count_uncached_def
      split: sum.splits)

lemma finalize_Inr:
  assumes "finalize lib cfg w question ans docs_scores (time_start w) False allow s = (Inr r, s')"
  shows "r = length (heap s)
         \<and> metrics s' = count_uncached (latency lib w) (metrics s)
         \<and> (\<exists>new. heap s' = heap s @ built_result lib w ans docs_scores # new)
         \<and> (allow \<longrightarrow> map_of (cache s') (get_cache_key lib question)
                         = Some (Suc (length (heap s)), now_set w)
                       \<and> heap s' = heap s @ [built_result lib w ans docs_scores,
                                              built_result lib w ans docs_scores])
         \<and> (\<not> allow \<longrightarrow> cache s' = cache s)"
proof (cases allow)
  case False
  then show ?thesis
    using assms by (auto simp: finalize_no_write)
next
  case True
  let ?s1 = "s\<lparr>heap := heap s @ [built_result lib w ans docs_scores],
               metrics := count_uncached (latency lib w) (metrics s)\<rparr>"
  obtain s2 where w: "set_cache lib cfg (now_set w) question (length (heap s)) ?s1 = Inr s2"
    and r: "r = length (heap s)" and s': "s' = s2"
    using assms True by (auto simp: finalize_write split: sum.splits)
  from set_cache_Inr [OF w] show ?thesis
    using True r s' by simp
qed

lemma finalize_heap:
  assumes "finalize lib cfg w question ans docs_scores (time_start w) False allow s = (x, s')"
  shows "\<exists>new. heap s' = heap s @ new"
proof (cases x)
  case (Inr r)
  then show ?thesis
    using finalize_Inr [of lib cfg w question ans docs_scores allow s r s'] assms by auto
next
  case (Inl e)
  show ?thesis
  proof (cases allow)
    case False
    then show ?thesis
      using assms by (auto simp: finalize_no_write)
  next
    case True
    then show ?thesis
      using assms Inl by (auto simp: finalize_write split: sum.splits)
  qed
qed

lemma query_miss:
  assumes "strip lib q \<noteq> []"
    and "(if use_cache \<and> enable_cache cfg
          then get_cache lib cfg (now_get w) (strip lib q)
                 (s\<lparr>metrics := (metrics s)\<lparr>total_queries := total_queries (metrics s) + 1\<rparr>\<rparr>)
          else (None, s\<lparr>metrics := (metrics s)\<lparr>total_queries := total_queries (metrics s) + 1\<rparr>\<rparr>))
         = (None, s1)"
  shows "query lib cfg w (Some q) top_k use_cache use_rerank s =
     (case search w (strip lib q) (case top_k of Some t \<Rightarrow> t | None \<Rightarrow> top_k_retrieval cfg) of
        Inl e \<Rightarrow> (Inl e, s1)
      | Inr docs_scores \<Rightarrow>
          finalize lib cfg w (strip lib q) (final_answer lib cfg w (strip lib q) use_rerank docs_scores)
            (final_docs lib cfg (strip lib q) use_rerank docs_scores) (time_start w) False
            (use_cache \<and> enable_cache cfg) s1)"
  unfolding query_def Let_def
  apply (simp only: option.case assms(2) prod.case)
  using assms(1)
  apply (simp add: final_answer_def final_docs_def split: sum.splits)
  done

lemma blank_or_Some:
  assumes "strip lib (case question of None \<Rightarrow> [] | Some q \<Rightarrow> q) \<noteq> []"
  obtains q where "question = Some q" and "strip lib q \<noteq> []"
  using assms by (cases question) (auto simp: strip_def)

text \<open>
  Every outcome of \<open>query\<close>: the store only grows, and a call that returns has
  allocated its result first and counted itself once, as a hit or as an uncached call.
\<close>

lemma query_outcome:
  assumes "query lib cfg w question top_k use_cache use_rerank s = (x, s')"
  shows "(\<exists>new. heap s' = heap s @ new)
         \<and> (\<forall>r. x = Inr r \<longrightarrow>
               r = length (heap s)
               \<and> (\<exists>d new. heap s' = heap s @ d # new \<and> latency_ms d = latency lib w
                     \<and> metrics s' = (if from_cache d
                                      then count_hit (latency lib w) (count_query (metrics s))
                                      else count_uncached (latency lib w) (count_query (metrics s)))))"
proof (cases "strip lib (case question of None \<Rightarrow> [] | Some q \<Rightarrow> q) = []")
  case True
  have "from_cache (built_result lib w (str ''Empty question.'') []) = False"
    and "latency_ms (built_result lib w (str ''Empty question.'') []) = latency lib w"
    by (simp_all add: built_result_def)
  then show ?thesis
    using assms unfolding query_empty_path [OF True] by auto
next
  case False
  then obtain q where q: "question = Some q" "strip lib q \<noteq> []"
    by (rule blank_or_Some)
  let ?s0 = "s\<lparr>metrics := (metrics s)\<lparr>total_queries := total_queries (metrics s) + 1\<rparr>\<rparr>"
  obtain cached s1 where g:
    "(if use_cache \<and> enable_cache cfg then get_cache lib cfg (now_get w) (strip lib q) ?s0
      else (None, ?s0)) = (cached, s1)"
    by fastforce
  have fr: "heap s1 = heap s" "metrics s1 = count_query (metrics s)"
    using g get_cache_frame [of lib cfg "now_get w" "strip lib q" ?s0]
    by (auto simp: count_query_def split: if_splits)
  show ?thesis
  proof (cases cached)
    case (Some a)
    then have uc: "use_cache" "enable_cache cfg"
      and gc: "get_cache lib cfg (now_get w) (strip lib q) ?s0 = (Some a, s1)"
      using g by (auto split: if_splits)
    from get_cache_Some [OF gc] obtain ts where
      m: "map_of (cache s) (get_cache_key lib (strip lib q)) = Some (a, ts)"
      and f: "\<not> timedelta_seconds (cache_ttl cfg) < now_get w - ts"
      by auto
    show ?thesis
      using assms unfolding q(1) query_hit [OF q(2) uc m f]
      by auto
  next
    case None
    note qm = query_miss [OF q(2) g [unfolded None], of top_k use_rerank]
    show ?thesis
    proof (cases "search w (strip lib q) (case top_k of Some t \<Rightarrow> t | None \<Rightarrow> top_k_retrieval cfg)")
      case (Inl e)
      then show ?thesis
        using assms fr unfolding q(1) qm by auto
    next
      case (Inr docs_scores)
      let ?ans = "final_answer lib cfg w (strip lib q) use_rerank docs_scores"
      let ?docs = "final_docs lib cfg (strip lib q) use_rerank docs_scores"
      have fin: "finalize lib cfg w (strip lib q) ?ans ?docs (time_start w) False
                   (use_cache \<and> enable_cache cfg) s1 = (x, s')"
        using assms Inr unfolding q(1) qm by simp
      have b: "from_cache (built_result lib w ?ans ?docs) = False"
        "latency_ms (built_result lib w ?ans ?docs) = latency lib w"
        by (simp_all add: built_result_def)
      have "\<exists>new. heap s' = heap s @ new"
        using finalize_heap [OF fin] fr by simp
      moreover have "r = length (heap s)
               \<and> (\<exists>d new. heap s' = heap s @ d # new \<and> latency_ms d = latency lib w
                     \<and> metrics s' = (if from_cache d
                                      then count_hit (latency lib w) (count_query (metrics s))
                                      else count_uncached (latency lib w) (count_query (metrics s))))"
        if "x = Inr r" for r
        using finalize_Inr [OF fin [unfolded that]] fr b by auto
      ultimately show ?thesis
        by blast
    qed
  qed
qed

lemma after_calls_heap: "\<exists>new. heap (after_calls lib cfg calls s) = heap s @ new"
proof (induction calls arbitrary: s)
  case Nil
  then show ?case by (simp add: after_calls_def)
next
  case (Cons c cs)
  let ?s1 = "snd (query lib cfg (call_world c) (call_question c) (call_top_k c)
                    (call_use_cache c) (call_use_rerank c) s)"
  have a: "after_calls lib cfg (c # cs) s = after_calls lib cfg cs ?s1"
    by (simp add: after_calls_def)
  obtain n1 where "heap ?s1 = heap s @ n1"
    using query_outcome [of lib cfg "call_world c" "call_question c" "call_top_k c"
        "call_use_cache c" "call_use_rerank c" s]
    by (metis prod.collapse)
  moreover obtain n2 where "heap (after_calls lib cfg cs ?s1) = heap ?s1 @ n2"
    using Cons.IH by blast
  ultimately show ?case
    by (simp add: a)
qed

lemma wf_lookup:
  "wf s \<Longrightarrow> map_of (cache s) k = Some (a, ts) \<Longrightarrow> a < length (heap s)"
  by (auto simp: wf_def list_all_iff dest!: map_of_SomeD)

text \<open>What a call that returns, with the cache in use, leaves under the question's key.\<close>

lemma query_caches:
  assumes "strip lib q \<noteq> []" and "enable_cache cfg" and "wf s"
    and "query lib cfg w (Some q) top_k True use_rerank s = (Inr r, s')"
  shows "\<exists>a ts. map_of (cache s') (get_cache_key lib (strip lib q)) = Some (a, ts)
           \<and> a < length (heap s') \<and> answer (heap s' ! a) = answer (heap s' ! r)"
proof -
  let ?s0 = "s\<lparr>metrics := (metrics s)\<lparr>total_queries := total_queries (metrics s) + 1\<rparr>\<rparr>"
  let ?key = "get_cache_key lib (strip lib q)"
  obtain cached s1 where gc: "get_cache lib cfg (now_get w) (strip lib q) ?s0 = (cached, s1)"
    by fastforce
  then have g: "(if True \<and> enable_cache cfg then get_cache lib cfg (now_get w) (strip lib q) ?s0
      else (None, ?s0)) = (cached, s1)"
    using assms(2) by simp
  have fr: "heap s1 = heap s"
    using gc get_cache_frame [of lib cfg "now_get w" "strip lib q" ?s0] by simp
  show ?thesis
  proof (cases cached)
    case (Some a)
    from get_cache_Some [OF gc [unfolded Some]] obtain ts where
      m: "map_of (cache s) ?key = Some (a, ts)"
      and f: "\<not> timedelta_seconds (cache_ttl cfg) < now_get w - ts"
      by auto
    have a: "a < length (heap s)"
      using wf_lookup [OF assms(3) m] .
    have "s' = s\<lparr>heap := heap s @ [(heap s ! a)\<lparr>from_cache := True, latency_ms := latency lib w,
                                       timestamp := isoformat lib (now_stamp w)\<rparr>],
        metrics := count_hit (latency lib w) (count_query (metrics s))\<rparr>"
      and "r = length (heap s)"
      using assms(4) unfolding query_hit [OF assms(1) TrueI assms(2) m f] by simp_all
    then show ?thesis
      using m a by (simp add: nth_append)
  next
    case None
    note qm = query_miss [OF assms(1) g [unfolded None], of top_k use_rerank]
    obtain docs_scores where
      "search w (strip lib q) (case top_k of Some t \<Rightarrow> t | None \<Rightarrow> top_k_retrieval cfg)
         = Inr docs_scores"
      using assms(4) unfolding qm by (auto split: sum.splits)
    then have fin: "finalize lib cfg w (strip lib q) (final_answer lib cfg w (strip lib q) use_rerank docs_scores)
                      (final_docs lib cfg (strip lib q) use_rerank docs_scores) (time_start w) False
                      (True \<and> enable_cache cfg) s1 = (Inr r, s')"
      using assms(4) unfolding qm by simp
    from finalize_Inr [OF fin] show ?thesis
      using assms(2) by (simp add: nth_append)
  qed
qed

text \<open>
  Claim C8. Let a question that is not blank be asked with the cache in use and
  enabled, and let the call return. After any calls in between that leave the
  question's cache entry in place, a second call with the same question, made before
  that entry expires, returns a result with \<open>from_cache = True\<close> and the answer that
  the first call returned. The starting state is any well-formed one; \<open>init\<close> and
  every state reached from it are.
\<close>

theorem query_twice:
  assumes "strip lib q \<noteq> []" and "enable_cache cfg" and "wf s"
    and "query lib cfg w1 (Some q) k1 True rr1 s = (Inr r1, s1)"
    and "s2 = after_calls lib cfg calls s1"
    and "map_of (cache s2) (get_cache_key lib (strip lib q))
         = map_of (cache s1) (get_cache_key lib (strip lib q))"
    and "\<forall>a ts. map_of (cache s1) (get_cache_key lib (strip lib q)) = Some (a, ts) \<longrightarrow>
                 \<not> timedelta_seconds (cache_ttl cfg) < now_get w2 - ts"
  shows "\<exists>r2 s3. query lib cfg w2 (Some q) k2 True rr2 s2 = (Inr r2, s3)
           \<and> from_cache (heap s3 ! r2) = True
           \<and> answer (heap s3 ! r2) = answer (heap s1 ! r1)"
proof -
  from query_caches [OF assms(1-4)] obtain a ts where
    m: "map_of (cache s1) (get_cache_key lib (strip lib q)) = Some (a, ts)"
    and a: "a < length (heap s1)"
    and ans: "answer (heap s1 ! a) = answer (heap s1 ! r1)"
    by blast
  obtain new where "heap s2 = heap s1 @ new"
    using after_calls_heap [of lib cfg calls s1] assms(5) by auto
  then have same: "heap s2 ! a = heap s1 ! a"
    using a by (simp add: nth_append)
  have m2: "map_of (cache s2) (get_cache_key lib (strip lib q)) = Some (a, ts)"
    using m assms(6) by simp
  have f: "\<not> timedelta_seconds (cache_ttl cfg) < now_get w2 - ts"
    using m assms(7) by blast
  show ?thesis
    unfolding query_hit [OF assms(1) TrueI assms(2) m2 f]
    using same ans by simp
qed

lemma wf_init: "wf init"
  by (simp add: wf_def init_def)

lemma wf_grow:
  "wf s \<Longrightarrow> cache s' = cache s \<Longrightarrow> length (heap s) \<le> length (heap s') \<Longrightarrow> wf s'"
  by (auto simp: wf_def list_all_iff)

lemma set_delete_subset: "set (AList.delete k al) \<subseteq> set al"
  by (induction al) auto

lemma set_update_subset: "set (AList.update k v al) \<subseteq> insert (k, v) (set al)"
  by (induction al) auto

lemma wf_delete: "wf s \<Longrightarrow> wf (s\<lparr>cache := AList.delete k (cache s)\<rparr>)"
  using set_delete_subset [of k "cache s"]
  by (auto simp: wf_def list_all_iff AList.distinct_delete)

lemma wf_update:
  "wf s \<Longrightarrow> a < length (heap s) \<Longrightarrow> wf (s\<lparr>cache := AList.update k (a, ts) (cache s)\<rparr>)"
  using set_update_subset [of k "(a, ts)" "cache s"]
  by (auto simp: wf_def list_all_iff AList.distinct_update)

lemma wf_get_cache: "wf s \<Longrightarrow> wf (snd (get_cache lib cfg now q s))"
  by (auto simp: get_cache_def Let_def wf_delete split: option.splits)

lemma wf_set_cache:
  assumes "wf s" and "set_cache lib cfg now q r s = Inr s'"
  shows "wf s'"
proof -
  let ?key = "get_cache_key lib q"
  have grow: "wf (t\<lparr>heap := heap t @ [d]\<rparr>)" if "wf t" for t :: pipeline and d
    using that by (rule wf_grow) simp_all
  have upd: "wf (t\<lparr>heap := heap t @ [d], cache := AList.update ?key (length (heap t), now) (cache t)\<rparr>)"
    if "wf t" for t :: pipeline and d
    using wf_update [OF grow [OF that, of d], of "length (heap t)" ?key now] by simp
  show ?thesis
  proof (cases "int (length (cache s)) < cache_max_size cfg")
    case True
    then show ?thesis
      using assms upd [OF assms(1), of "heap s ! r"] by (simp add: set_cache_room)
  next
    case False
    then have full: "cache_max_size cfg \<le> int (length (cache s))"
      by simp
    have "cache s \<noteq> []"
      using assms(2) set_cache_raises [OF full] by auto
    then obtain k where k: "oldest_key (cache s) = Inr k"
      using oldest_key_Cons by blast
    have "wf (s\<lparr>cache := AList.delete k (cache s)\<rparr>)"
      using assms(1) by (rule wf_delete)
    from upd [OF this, of "heap s ! r"] show ?thesis
      using assms(2) by (simp add: set_cache_full [OF full k])
  qed
qed

lemma wf_metrics: "wf (s\<lparr>metrics := m\<rparr>) = wf s"
  by (simp add: wf_def)

lemma wf_finalize:
  assumes "wf s"
    and "finalize lib cfg w question ans docs_scores (time_start w) False allow s = (x, s')"
  shows "wf s'"
proof -
  let ?s1 = "s\<lparr>heap := heap s @ [built_result lib w ans docs_scores],
               metrics := count_uncached (latency lib w) (metrics s)\<rparr>"
  have w1: "wf ?s1"
    using assms(1) by (rule wf_grow) simp_all
  show ?thesis
  proof (cases allow)
    case False
    then show ?thesis
      using assms(2) w1 by (auto simp: finalize_no_write)
  next
    case True
    show ?thesis
    proof (cases "set_cache lib cfg (now_set w) question (length (heap s)) ?s1")
      case (Inl e)
      then show ?thesis
        using assms(2) True w1 by (auto simp: finalize_write)
    next
      case (Inr s2)
      then have "s' = s2"
        using assms(2) True by (auto simp: finalize_write)
      then show ?thesis
        using wf_set_cache [OF w1 Inr] by simp
    qed
  qed
qed

lemma wf_query:
  assumes "wf s" and "query lib cfg w question top_k use_cache use_rerank s = (x, s')"
  shows "wf s'"
proof (cases "strip lib (case question of None \<Rightarrow> [] | Some q \<Rightarrow> q) = []")
  case True
  have "wf (s\<lparr>heap := heap s @ [built_result lib w (str ''Empty question.'') []],
        metrics := count_uncached (latency lib w) (count_query (metrics s))\<rparr>)"
    using assms(1) by (rule wf_grow) simp_all
  then show ?thesis
    using assms(2) unfolding query_empty_path [OF True] by auto
next
  case False
  then obtain q where q: "question = Some q" "strip lib q \<noteq> []"
    by (rule blank_or_Some)
  let ?s0 = "s\<lparr>metrics := (metrics s)\<lparr>total_queries := total_queries (metrics s) + 1\<rparr>\<rparr>"
  have w0: "wf ?s0"
    using assms(1) by (simp add: wf_metrics)
  obtain cached s1 where g:
    "(if use_cache \<and> enable_cache cfg then get_cache lib cfg (now_get w) (strip lib q) ?s0
      else (None, ?s0)) = (cached, s1)"
    by fastforce
  have w1: "wf s1"
    using g w0 wf_get_cache [OF w0, of lib cfg "now_get w" "strip lib q"]
    by (auto split: if_splits)
  show ?thesis
  proof (cases cached)
    case (Some a)
    then have uc: "use_cache" "enable_cache cfg"
      and gc: "get_cache lib cfg (now_get w) (strip lib q) ?s0 = (Some a, s1)"
      using g by (auto split: if_splits)
    from get_cache_Some [OF gc] obtain ts where
      m: "map_of (cache s) (get_cache_key lib (strip lib q)) = Some (a, ts)"
      and f: "\<not> timedelta_seconds (cache_ttl cfg) < now_get w - ts"
      by auto
    have "wf (s\<lparr>heap := heap s @ [(heap s ! a)\<lparr>from_cache := True, latency_ms := latency lib w,
                                       timestamp := isoformat lib (now_stamp w)\<rparr>],
        metrics := count_hit (latency lib w) (count_query (metrics s))\<rparr>)"
      using assms(1) by (rule wf_grow) simp_all
    then show ?thesis
      using assms(2) unfolding q(1) query_hit [OF q(2) uc m f] by auto
  next
    case None
    note qm = query_miss [OF q(2) g [unfolded None], of top_k use_rerank]
    show ?thesis
    proof (cases "search w (strip lib q) (case top_k of Some t \<Rightarrow> t | None \<Rightarrow> top_k_retrieval cfg)")
      case (Inl e)
      then show ?thesis
        using assms(2) w1 unfolding q(1) qm by auto
    next
      case (Inr docs_scores)
      then have "finalize lib cfg w (strip lib q) (final_answer lib cfg w (strip lib q) use_rerank docs_scores)
                   (final_docs lib cfg (strip lib q) use_rerank docs_scores) (time_start w) False
                   (use_cache \<and> enable_cache cfg) s1 = (x, s')"
        using assms(2) unfolding q(1) qm by simp
      then show ?thesis
        using w1 by (rule wf_finalize [rotated])
    qed
  qed
qed

lemma wf_after_calls: "wf s \<Longrightarrow> wf (after_calls lib cfg calls s)"
proof (induction calls arbitrary: s)
  case Nil
  then show ?case by (simp add: after_calls_def)
next
  case (Cons c cs)
  let ?s1 = "snd (query lib cfg (call_world c) (call_question c) (call_top_k c)
                    (call_use_cache c) (call_use_rerank c) s)"
  have "wf ?s1"
    using wf_query [OF Cons.prems] by (metis prod.collapse)
  then have "wf (after_calls lib cfg cs ?s1)"
    by (rule Cons.IH)
  then show ?case
    by (simp add: after_calls_def)
qed

text \<open>A first question with room in the cache: the answer is built and stored.\<close>

lemma query_store:
  assumes "strip lib q \<noteq> []" and "use_cache" and "enable_cache cfg"
    and "map_of (cache s) (get_cache_key lib (strip lib q)) = None"
    and "search w (strip lib q) (case top_k of Some t \<Rightarrow> t | None \<Rightarrow> top_k_retrieval cfg)
         = Inr docs_scores"
    and "int (length (cache s)) < cache_max_size cfg"
  shows "query lib cfg w (Some q) top_k use_cache use_rerank s =
     (Inr (length (heap s)),
      s\<lparr>heap := heap s @ [built_result lib w (final_answer lib cfg w (strip lib q) use_rerank docs_scores)
                              (final_docs lib cfg (strip lib q) use_rerank docs_scores),
                            built_result lib w (final_answer lib cfg w (strip lib q) use_rerank docs_scores)
                              (final_docs lib cfg (strip lib q) use_rerank docs_scores)],
        cache := AList.update (get_cache_key lib (strip lib q)) (Suc (length (heap s)), now_set w)
                   (cache s),
        metrics := count_uncached (latency lib w) (count_query (metrics s))\<rparr>)"
proof -
  let ?s0 = "s\<lparr>metrics := (metrics s)\<lparr>total_queries := total_queries (metrics s) + 1\<rparr>\<rparr>"
  let ?b = "built_result lib w (final_answer lib cfg w (strip lib q) use_rerank docs_scores)
              (final_docs lib cfg (strip lib q) use_rerank docs_scores)"
  let ?s1 = "?s0\<lparr>heap := heap ?s0 @ [?b], metrics := count_uncached (latency lib w) (metrics ?s0)\<rparr>"
  have "map_of (cache ?s0) (get_cache_key lib (strip lib q)) = None"
    using assms(4) by simp
  then have "get_cache lib cfg (now_get w) (strip lib q) ?s0 = (None, ?s0)"
    by (rule get_cache_miss)
  then have g: "(if use_cache \<and> enable_cache cfg
          then get_cache lib cfg (now_get w) (strip lib q) ?s0 else (None, ?s0)) = (None, ?s0)"
    by simp
  let ?m = "count_uncached (latency lib w)
              ((metrics s)\<lparr>total_queries := total_queries (metrics s) + 1\<rparr>)"
  let ?t = "s\<lparr>heap := heap s @ [?b], metrics := ?m\<rparr>"
  have "int (length (cache ?t)) < cache_max_size cfg"
    using assms(6) by simp
  from set_cache_room [OF this, of lib "now_set w" "strip lib q" "length (heap s)"]
  have w: "set_cache lib cfg (now_set w) (strip lib q) (length (heap s)) ?t =
     Inr (s\<lparr>heap := heap s @ [?b, ?b],
        cache := AList.update (get_cache_key lib (strip lib q)) (Suc (length (heap s)), now_set w)
                   (cache s),
        metrics := ?m\<rparr>)"
    by simp
  show ?thesis
    unfolding query_miss [OF assms(1) g] assms(5) sum.case
    using assms(2,3) by (simp add: finalize_write w count_query_def)
qed

lemma strip_q: "strip lib_demo (str ''q'') = str ''q''"
  by (simp add: strip_def str_def lib_demo_def)

lemma key_q: "get_cache_key lib_demo (str ''q'') = str ''q''"
  by (simp add: get_cache_key_def lib_demo_def strip_def str_def)

theorem query_cache_hit_witness:
  "strip lib_demo (str ''q'') \<noteq> [] \<and> enable_cache Config
   \<and> map_of (cache pipeline_cached) (get_cache_key lib_demo (strip lib_demo (str ''q''))) = Some (1, 0)
   \<and> \<not> timedelta_seconds (cache_ttl Config) < now_get (world_demo 10) - 0
   \<and> 1 < length (heap pipeline_cached)
   \<and> (\<exists>r s'. query lib_demo Config (world_demo 10) (Some (str ''q'')) None True True pipeline_cached
                = (Inr r, s')
           \<and> r \<noteq> 1
           \<and> heap s' ! r = result_demo\<lparr>from_cache := True, latency_ms := 125,
                                         timestamp := isoformat lib_demo 10125000\<rparr>
           \<and> cache_hits (metrics s') = 1
           \<and> uncached_queries (metrics s') = 0
           \<and> total_latency_ms_uncached (metrics s') = 0
           \<and> cache s' = cache pipeline_cached
           \<and> heap s' ! 1 = result_demo)"
proof -
  have h1: "strip lib_demo (str ''q'') \<noteq> []"
    by (simp add: strip_def str_def lib_demo_def)
  have h3: "enable_cache Config"
    by (simp add: Config_def)
  have h4: "map_of (cache pipeline_cached) (get_cache_key lib_demo (strip lib_demo (str ''q''))) = Some (1, 0)"
    by (simp add: strip_q key_q pipeline_cached_def)
  have h5: "\<not> timedelta_seconds (cache_ttl Config) < now_get (world_demo 10) - 0"
    by (simp add: timedelta_seconds_def Config_def world_demo_def)
  have h6: "1 < length (heap pipeline_cached)"
    by (simp add: pipeline_cached_def)
  have st: "heap pipeline_cached ! Suc 0 = result_demo" "metrics pipeline_cached = metrics init"
    by (simp_all add: pipeline_cached_def pipeline_demo_def)
  have n: "now_stamp (world_demo 10) = 10125000"
    by (simp add: world_demo_def)
  from query_cache_hit [OF h1 TrueI h3 h4 h5 h6, of None True]
  obtain r s' where
    "query lib_demo Config (world_demo 10) (Some (str ''q'')) None True True pipeline_cached = (Inr r, s')"
    "r \<noteq> 1"
    "heap s' ! r = (heap pipeline_cached ! 1)\<lparr>from_cache := True,
        latency_ms := latency lib_demo (world_demo 10),
        timestamp := isoformat lib_demo (now_stamp (world_demo 10))\<rparr>"
    "cache_hits (metrics s') = cache_hits (metrics pipeline_cached) + 1"
    "uncached_queries (metrics s') = uncached_queries (metrics pipeline_cached)"
    "total_latency_ms_uncached (metrics s') = total_latency_ms_uncached (metrics pipeline_cached)"
    "cache s' = cache pipeline_cached"
    "heap s' ! 1 = heap pipeline_cached ! 1"
    by blast
  then have "\<exists>r s'. query lib_demo Config (world_demo 10) (Some (str ''q'')) None True True pipeline_cached
                = (Inr r, s')
           \<and> r \<noteq> 1
           \<and> heap s' ! r = result_demo\<lparr>from_cache := True, latency_ms := 125,
                                         timestamp := isoformat lib_demo 10125000\<rparr>
           \<and> cache_hits (metrics s') = 1
           \<and> uncached_queries (metrics s') = 0
           \<and> total_latency_ms_uncached (metrics s') = 0
           \<and> cache s' = cache pipeline_cached
           \<and> heap s' ! 1 = result_demo"
    by (simp add: st n latency_demo init_def)
  then show ?thesis
    using h1 h3 h4 h5 h6 by blast
qed

lemma run_Cons_Inr:
  assumes "run lib cfg (c # cs) s0 = (Inr ds, s)"
  obtains r s1 ds' where
    "query lib cfg (call_world c) (call_question c) (call_top_k c) (call_use_cache c)
       (call_use_rerank c) s0 = (Inr r, s1)"
    and "run lib cfg cs s1 = (Inr ds', s)" and "ds = heap s1 ! r # ds'"
  using assms by (auto split: prod.splits sum.splits)

lemma run_counters:
  "run lib cfg calls s0 = (Inr ds, s) \<Longrightarrow>
     total_queries (metrics s) = total_queries (metrics s0) + int (length ds)
     \<and> cache_hits (metrics s) = cache_hits (metrics s0) + int (length (filter from_cache ds))
     \<and> uncached_queries (metrics s)
         = uncached_queries (metrics s0) + int (length (filter (\<lambda>d. \<not> from_cache d) ds))
     \<and> total_latency_ms_e2e (metrics s)
         = total_latency_ms_e2e (metrics s0) + sum_list (map latency_ms ds)
     \<and> total_latency_ms_uncached (metrics s)
         = total_latency_ms_uncached (metrics s0)
           + sum_list (map latency_ms (filter (\<lambda>d. \<not> from_cache d) ds))"
proof (induction calls arbitrary: s0 ds)
  case Nil
  then show ?case by simp
next
  case (Cons c cs)
  from Cons.prems obtain r s1 ds' where
    q: "query lib cfg (call_world c) (call_question c) (call_top_k c) (call_use_cache c)
          (call_use_rerank c) s0 = (Inr r, s1)"
    and rest: "run lib cfg cs s1 = (Inr ds', s)" and ds: "ds = heap s1 ! r # ds'"
    by (rule run_Cons_Inr)
  from query_outcome [OF q] obtain d new where
    r: "r = length (heap s0)" and h: "heap s1 = heap s0 @ d # new"
    and l: "latency_ms d = latency lib (call_world c)"
    and m: "metrics s1 = (if from_cache d
                          then count_hit (latency lib (call_world c)) (count_query (metrics s0))
                          else count_uncached (latency lib (call_world c)) (count_query (metrics s0)))"
    by blast
  have d: "heap s1 ! r = d"
    by (simp add: r h)
  note ih = Cons.IH [OF rest]
  show ?case
  proof (cases "from_cache d")
    case True
    then show ?thesis
      using ih m l by (simp add: ds d count_hit_def count_query_def)
  next
    case False
    then show ?thesis
      using ih m l by (simp add: ds d count_uncached_def count_query_def)
  qed
qed

text \<open>
  Claim C9, with the arithmetic the code has. After a run of calls from \<open>init\<close> that
  all returned, \<open>N\<close> of them without a cache hit and \<open>M\<close> from the cache, the counters
  hold \<open>N + M\<close> queries, \<open>M\<close> hits, \<open>N\<close> uncached queries and the two sums of
  latencies, and \<open>get_metrics\<close> computes from them: \<open>total_queries = N + M\<close>,
  \<open>cache_hits = M\<close>, \<open>cache_hit_rate\<close> the floating-point quotient \<open>M / (N + M)\<close>
  rounded to three decimals by \<open>round\<close> (\<open>round(0.0, 3)\<close> without queries), and the two
  average latencies, floating-point quotients of the sums by \<open>N + M\<close> and by \<open>N\<close>,
  rounded to two decimals by \<open>round\<close> (\<open>None\<close> when their divisor is zero). This
  holds for every floating-point rounding; with the rounding of binary64 the rate
  reported before any query is \<open>0\<close>.
\<close>

theorem metrics_consistency:
  assumes "run lib cfg calls init = (Inr ds, s)"
  shows "let M = length (filter from_cache ds);
             N = length (filter (\<lambda>d. \<not> from_cache d) ds);
             e2e = sum_list (map latency_ms ds);
             unc = sum_list (map latency_ms (filter (\<lambda>d. \<not> from_cache d) ds));
             rep = get_metrics lib s
         in total_queries (metrics s) = int (N + M)
            \<and> cache_hits (metrics s) = int M
            \<and> uncached_queries (metrics s) = int N
            \<and> total_latency_ms_e2e (metrics s) = e2e
            \<and> total_latency_ms_uncached (metrics s) = unc
            \<and> rep_total_queries rep = int (N + M)
            \<and> rep_cache_hits rep = int M
            \<and> cache_hit_rate rep
                = py_round lib (if N + M = 0 then 0
                                else truediv lib (int M) (int (N + M))) 3
            \<and> avg_latency_e2e_ms rep
                = (if N + M = 0 then None
                   else Some (py_round lib (truediv lib e2e (int (N + M))) 2))
            \<and> avg_latency_uncached_ms rep
                = (if N = 0 then None else Some (py_round lib (truediv lib unc (int N)) 2))
            \<and> cache_hit_rate (get_metrics lib_demo init) = 0"
proof -
  have len: "length (filter (\<lambda>d. \<not> from_cache d) ds) + length (filter from_cache ds) = length ds"
    using sum_length_filter_compl [of from_cache ds] by simp
  have c: "total_queries (metrics s) = int (length ds)"
    "cache_hits (metrics s) = int (length (filter from_cache ds))"
    "uncached_queries (metrics s) = int (length (filter (\<lambda>d. \<not> from_cache d) ds))"
    "total_latency_ms_e2e (metrics s) = sum_list (map latency_ms ds)"
    "total_latency_ms_uncached (metrics s)
       = sum_list (map latency_ms (filter (\<lambda>d. \<not> from_cache d) ds))"
    using run_counters [OF assms] by (simp_all add: init_def)
  have z: "cache_hit_rate (get_metrics lib_demo init) = 0"
    by (simp add: get_metrics_def init_def py_round_zero)
  have "total_queries (metrics s) = int (length ds)
        \<and> cache_hits (metrics s) = int (length (filter from_cache ds))
        \<and> uncached_queries (metrics s) = int (length (filter (\<lambda>d. \<not> from_cache d) ds))
        \<and> total_latency_ms_e2e (metrics s) = sum_list (map latency_ms ds)
        \<and> total_latency_ms_uncached (metrics s)
            = sum_list (map latency_ms (filter (\<lambda>d. \<not> from_cache d) ds))
        \<and> rep_total_queries (get_metrics lib s) = int (length ds)
        \<and> rep_cache_hits (get_metrics lib s) = int (length (filter from_cache ds))
        \<and> cache_hit_rate (get_metrics lib s)
            = py_round lib (if length ds = 0 then 0
                            else truediv lib (int (length (filter from_cache ds)))
                                   (int (length ds))) 3
        \<and> avg_latency_e2e_ms (get_metrics lib s)
            = (if length ds = 0 then None
               else Some (py_round lib (truediv lib (sum_list (map latency_ms ds))
                                          (int (length ds))) 2))
        \<and> avg_latency_uncached_ms (get_metrics lib s)
            = (if length (filter (\<lambda>d. \<not> from_cache d) ds) = 0 then None
               else Some (py_round lib
                 (truediv lib (sum_list (map latency_ms (filter (\<lambda>d. \<not> from_cache d) ds)))
                    (int (length (filter (\<lambda>d. \<not> from_cache d) ds)))) 2))"
    unfolding get_metrics_def Let_def c by simp
  then show ?thesis
    unfolding Let_def len using z by blast
qed

lemma latency_none: "latency lib_demo (world_none t) = 125"
  by (simp add: latency_def world_none_def world_demo_def int_of_float_def fsub_def fmul_def
      fl_demo round_double_eighth round_double_125)

lemma step_1:
  "query lib_demo Config (world_none 10) (Some (str ''q'')) None True True init = (Inr 0, pipeline_1)"
proof -
  have h1: "strip lib_demo (str ''q'') \<noteq> []"
    by (simp add: strip_def str_def lib_demo_def)
  have h3: "enable_cache Config"
    by (simp add: Config_def)
  have h4: "map_of (cache init) (get_cache_key lib_demo (strip lib_demo (str ''q''))) = None"
    by (simp add: init_def)
  have h5: "search (world_none 10) (strip lib_demo (str ''q''))
              (case None of Some t \<Rightarrow> t | None \<Rightarrow> top_k_retrieval Config) = Inr []"
    by (simp add: world_none_def)
  have h6: "int (length (cache init)) < cache_max_size Config"
    by (simp add: init_def Config_def)
  have ns: "now_stamp (world_none 10) = 10125000"
    by (simp add: world_none_def world_demo_def)
  have b: "built_result lib_demo (world_none 10)
             (final_answer lib_demo Config (world_none 10) (strip lib_demo (str ''q'')) True [])
             (final_docs lib_demo Config (strip lib_demo (str ''q'')) True []) = result_none"
    by (simp add: final_answer_def final_docs_def built_result_empty latency_none result_none_def
        ns)
  have n: "now_set (world_none 10) = 10125001"
    by (simp add: world_none_def world_demo_def)
  show ?thesis
    unfolding query_store [OF h1 TrueI h3 h4 h5 h6] b
    by (simp add: strip_q key_q n latency_none count_uncached_def count_query_def init_def
        pipeline_1_def)
qed

lemma step_2:
  "query lib_demo Config (world_none 20) (Some (str ''  '')) None True True pipeline_1
     = (Inr 2, pipeline_2)"
proof -
  have h: "strip lib_demo (case Some (str ''  '') of None \<Rightarrow> [] | Some q \<Rightarrow> q) = []"
    by (simp add: strip_def str_def lib_demo_def)
  have ns: "now_stamp (world_none 20) = 20125000"
    by (simp add: world_none_def world_demo_def)
  have b: "built_result lib_demo (world_none 20) (str ''Empty question.'') [] = result_blank"
    by (simp add: built_result_empty latency_none result_blank_def ns)
  show ?thesis
    unfolding query_empty_path [OF h] b
    by (simp add: latency_none count_uncached_def count_query_def pipeline_1_def pipeline_2_def)
qed

lemma step_3:
  "query lib_demo Config (world_none 30) (Some (str ''q'')) None True True pipeline_2
     = (Inr 3, pipeline_3)"
proof -
  have h1: "strip lib_demo (str ''q'') \<noteq> []"
    by (simp add: strip_def str_def lib_demo_def)
  have h3: "enable_cache Config"
    by (simp add: Config_def)
  have h4: "map_of (cache pipeline_2) (get_cache_key lib_demo (strip lib_demo (str ''q''))) = Some (1, 10125001)"
    by (simp add: strip_q key_q pipeline_2_def)
  have h5: "\<not> timedelta_seconds (cache_ttl Config) < now_get (world_none 30) - 10125001"
    by (simp add: timedelta_seconds_def Config_def world_none_def world_demo_def)
  have n: "now_stamp (world_none 30) = 30125000"
    by (simp add: world_none_def world_demo_def)
  show ?thesis
    unfolding query_hit [OF h1 TrueI h3 h4 h5]
    by (simp add: n latency_none count_hit_def count_query_def pipeline_2_def pipeline_3_def
        result_hit_def)
qed

lemma run_demo:
  "run lib_demo Config calls_demo init = (Inr [result_none, result_blank, result_hit], pipeline_3)"
proof -
  have h: "heap pipeline_1 ! 0 = result_none" "heap pipeline_2 ! 2 = result_blank"
    "heap pipeline_3 ! 3 = result_hit"
    by (simp_all add: pipeline_1_def pipeline_2_def pipeline_3_def)
  show ?thesis
    by (simp add: calls_demo_def call_none_def step_1 step_2 step_3 h)
qed

lemma py_round_third: "py_round lib_demo (truediv lib_demo 1 3) 3 = lit lib_demo (333 / 1000)"
  unfolding float_ops by code_simp

lemma py_round_e2e: "py_round lib_demo (truediv lib_demo 375 3) 2 = 125"
  unfolding float_ops by code_simp

lemma py_round_uncached: "py_round lib_demo (truediv lib_demo 250 2) 2 = 125"
  unfolding float_ops by code_simp

lemma third_differs:
  "lit lib_demo (333 / 1000) \<noteq> truediv lib_demo 1 3 \<and> lit lib_demo (333 / 1000) \<noteq> 1 / 3"
  unfolding float_ops by code_simp

theorem query_twice_witness:
  "strip lib_demo (str ''q'') \<noteq> [] \<and> enable_cache Config \<and> wf init
   \<and> query lib_demo Config (world_none 10) (Some (str ''q'')) None True True init = (Inr 0, pipeline_1)
   \<and> pipeline_2 = after_calls lib_demo Config [call_none 20 (str ''  '')] pipeline_1
   \<and> map_of (cache pipeline_2) (get_cache_key lib_demo (strip lib_demo (str ''q'')))
       = map_of (cache pipeline_1) (get_cache_key lib_demo (strip lib_demo (str ''q'')))
   \<and> (\<exists>r2 s3. query lib_demo Config (world_none 30) (Some (str ''q'')) None True True pipeline_2
                 = (Inr r2, s3)
           \<and> from_cache (heap s3 ! r2) = True
           \<and> answer (heap s3 ! r2) = str ''No relevant information found in the document.'')"
proof -
  have h1: "strip lib_demo (str ''q'') \<noteq> []"
    by (simp add: strip_def str_def lib_demo_def)
  have h2: "enable_cache Config"
    by (simp add: Config_def)
  have h5: "pipeline_2 = after_calls lib_demo Config [call_none 20 (str ''  '')] pipeline_1"
    by (simp add: after_calls_def call_none_def step_2)
  have h6: "map_of (cache pipeline_2) (get_cache_key lib_demo (strip lib_demo (str ''q'')))
            = map_of (cache pipeline_1) (get_cache_key lib_demo (strip lib_demo (str ''q'')))"
    by (simp add: pipeline_1_def pipeline_2_def)
  have h7: "\<forall>a ts. map_of (cache pipeline_1) (get_cache_key lib_demo (strip lib_demo (str ''q''))) = Some (a, ts)
              \<longrightarrow> \<not> timedelta_seconds (cache_ttl Config) < now_get (world_none 30) - ts"
    by (simp add: strip_q key_q pipeline_1_def timedelta_seconds_def Config_def world_none_def
        world_demo_def)
  have a: "answer (heap pipeline_1 ! 0) = str ''No relevant information found in the document.''"
    by (simp add: pipeline_1_def result_none_def)
  from query_twice [OF h1 h2 wf_init step_1 h5 h6 h7, of None True]
  have "\<exists>r2 s3. query lib_demo Config (world_none 30) (Some (str ''q'')) None True True pipeline_2
                 = (Inr r2, s3)
           \<and> from_cache (heap s3 ! r2) = True
           \<and> answer (heap s3 ! r2) = str ''No relevant information found in the document.''"
    by (simp only: a)
  then show ?thesis
    using h1 h2 wf_init step_1 h5 h6 by blast
qed

theorem metrics_consistency_witness:
  "run lib_demo Config calls_demo init = (Inr [result_none, result_blank, result_hit], pipeline_3)
   \<and> total_queries (metrics pipeline_3) = 3
   \<and> cache_hits (metrics pipeline_3) = 1
   \<and> uncached_queries (metrics pipeline_3) = 2
   \<and> rep_total_queries (get_metrics lib_demo pipeline_3) = 3
   \<and> rep_cache_hits (get_metrics lib_demo pipeline_3) = 1
   \<and> cache_hit_rate (get_metrics lib_demo pipeline_3) = lit lib_demo (333 / 1000)
   \<and> avg_latency_e2e_ms (get_metrics lib_demo pipeline_3) = Some 125
   \<and> avg_latency_uncached_ms (get_metrics lib_demo pipeline_3) = Some 125"
proof -
  have f: "filter from_cache [result_none, result_blank, result_hit] = [result_hit]"
    "filter (\<lambda>d. \<not> from_cache d) [result_none, result_blank, result_hit]
       = [result_none, result_blank]"
    by (simp_all add: result_none_def result_blank_def result_hit_def)
  have l: "latency_ms result_none = 125" "latency_ms result_blank = 125"
    "latency_ms result_hit = 125"
    by (simp_all add: result_none_def result_blank_def result_hit_def)
  show ?thesis
    using metrics_consistency [OF run_demo] run_demo
    unfolding Let_def f
    by (simp add: l py_round_third py_round_e2e py_round_uncached)
qed

text \<open>
  Claim C9 as stated gives \<open>cache_hit_rate = M / (N + M)\<close>. After two calls without
  a hit and one hit the reported rate is the floating-point number \<open>0.333\<close>, which is
  neither one third nor the floating-point quotient \<open>1 / 3\<close>.
\<close>

theorem metrics_hit_rate_counterexample:
  "run lib_demo Config calls_demo init = (Inr [result_none, result_blank, result_hit], pipeline_3)
   \<and> map from_cache [result_none, result_blank, result_hit] = [False, False, True]
   \<and> cache_hit_rate (get_metrics lib_demo pipeline_3) = lit lib_demo (333 / 1000)
   \<and> lit lib_demo (333 / 1000) \<noteq> truediv lib_demo 1 3
   \<and> lit lib_demo (333 / 1000) \<noteq> 1 / 3"
  using run_demo third_differs
  by (simp add: get_metrics_def pipeline_3_def py_round_third result_none_def result_blank_def
      result_hit_def)

end
